theory Spec2Isabelle
  imports Complex_Main "HOL-Library.Multiset"
begin

section \<open>Layer depth order task generator\<close>

text \<open>
  A shallow embedding of \<^verbatim>\<open>src/generator.py\<close>, \<^verbatim>\<open>src/config.py\<close> and
  \<^verbatim>\<open>src/prompts.py\<close>. Python objects that the program mutates (the shape dictionaries
  and the palette list) live in an explicit store and are named by addresses; the
  process-wide random source is part of the same state. Every exception the code can raise
  is a value of \<open>error\<close>.
\<close>

subsection \<open>Values, errors and the store\<close>

datatype error = ValueError | ZeroDivisionError | IndexError | AttributeError | OSError

type_synonym rgb = "int \<times> int \<times> int"
type_synonym rgba = "int \<times> int \<times> int \<times> int"
type_synonym addr = nat

text \<open>The dictionary built for one shape in \<^verbatim>\<open>_generate_task_data\<close>; the fields are its
  keys \<^verbatim>\<open>"x"\<close>, \<^verbatim>\<open>"y"\<close>, \<^verbatim>\<open>"size"\<close>, \<^verbatim>\<open>"type"\<close>, \<^verbatim>\<open>"color"\<close> and \<^verbatim>\<open>"layer"\<close>.\<close>

record shape =
  shape_x :: int
  shape_y :: int
  shape_size :: int
  shape_type :: string
  shape_color :: rgba
  shape_layer :: int

text \<open>\<^verbatim>\<open>TaskConfig\<close>. The palette \<^verbatim>\<open>shape_colors\<close> is a Python list, hence a reference
  into the store.\<close>

record task_config =
  cfg_domain :: string
  image_size :: "int \<times> int"
  generate_videos :: bool
  video_fps :: int
  min_shapes :: int
  max_shapes :: int
  min_shape_size :: int
  max_shape_size :: int
  shape_colors :: addr
  bg_color :: rgb
  label_color :: rgb

text \<open>The mutable state: the entropy of \<^verbatim>\<open>random\<close> (an infinite sequence of raw draws and
  the position reached), the shape dictionaries and the list objects, each with the
  next free address.\<close>

record world =
  rng_draws :: "nat \<Rightarrow> nat"
  rng_pos :: nat
  dict_cells :: "addr \<Rightarrow> shape"
  dict_next :: addr
  list_cells :: "addr \<Rightarrow> rgba list"
  list_next :: addr

text \<open>Sequencing of fallible steps: the first exception ends the computation.\<close>

definition ebind :: "error + 'a \<Rightarrow> ('a \<Rightarrow> error + 'b) \<Rightarrow> error + 'b" where
  "ebind m f = (case m of Inl e \<Rightarrow> Inl e | Inr v \<Rightarrow> f v)"

subsection \<open>The random module\<close>

text \<open>\<^verbatim>\<open>random.randint\<close>, \<^verbatim>\<open>random.choice\<close> and \<^verbatim>\<open>random.shuffle\<close> as CPython defines them
  over \<^verbatim>\<open>_randbelow\<close>; the raw draw is reduced modulo the bound, so every value of the
  range is reached by some entropy.\<close>

definition randbelow :: "nat \<Rightarrow> world \<Rightarrow> nat \<times> world" where
  "randbelow n w = (rng_draws w (rng_pos w) mod n, w\<lparr>rng_pos := Suc (rng_pos w)\<rparr>)"

definition randint :: "int \<Rightarrow> int \<Rightarrow> world \<Rightarrow> error + (int \<times> world)" where
  "randint a b w =
     (if b < a then Inl ValueError
      else (let (r, w') = randbelow (nat (b - a + 1)) w in Inr (a + int r, w')))"

definition choice :: "'a list \<Rightarrow> world \<Rightarrow> error + ('a \<times> world)" where
  "choice seq w =
     (if seq = [] then Inl IndexError
      else (let (r, w') = randbelow (length seq) w in Inr (seq ! r, w')))"

text \<open>\<^verbatim>\<open>for i in reversed(range(1, len(x))): j = randbelow(i + 1); x[i], x[j] = x[j], x[i]\<close>\<close>

fun shuffle_from :: "nat \<Rightarrow> rgba list \<Rightarrow> world \<Rightarrow> rgba list \<times> world" where
  "shuffle_from 0 xs w = (xs, w)"
| "shuffle_from (Suc i) xs w =
     (let (j, w') = randbelow (Suc i + 1) w
      in shuffle_from i (xs[Suc i := xs ! j, j := xs ! Suc i]) w')"

text \<open>The shuffle is in place: it overwrites the list object at the address it is given.\<close>

definition shuffle :: "addr \<Rightarrow> world \<Rightarrow> world" where
  "shuffle a w =
     (let (xs, w') = shuffle_from (length (list_cells w a) - 1) (list_cells w a) w
      in w'\<lparr>list_cells := (list_cells w')(a := xs)\<rparr>)"

subsection \<open>Allocation and update of objects\<close>

text \<open>\<^verbatim>\<open>list(xs)\<close>: a new list object with the elements of the old one.\<close>

definition list_copy :: "addr \<Rightarrow> world \<Rightarrow> addr \<times> world" where
  "list_copy a w =
     (list_next w,
      w\<lparr>list_cells := (list_cells w)(list_next w := list_cells w a),
        list_next := Suc (list_next w)\<rparr>)"

text \<open>A dictionary display \<^verbatim>\<open>{...}\<close> allocates a new dictionary.\<close>

definition dict_new :: "shape \<Rightarrow> world \<Rightarrow> addr \<times> world" where
  "dict_new s w =
     (dict_next w,
      w\<lparr>dict_cells := (dict_cells w)(dict_next w := s), dict_next := Suc (dict_next w)\<rparr>)"

text \<open>\<^verbatim>\<open>shape.copy()\<close>: a new dictionary with the same items.\<close>

definition dict_copy :: "addr \<Rightarrow> world \<Rightarrow> addr \<times> world" where
  "dict_copy a w = dict_new (dict_cells w a) w"

text \<open>\<^verbatim>\<open>d["x"] = v\<close> and \<^verbatim>\<open>d["y"] = v\<close>: assignment through the reference.\<close>

definition dict_set_x :: "addr \<Rightarrow> int \<Rightarrow> world \<Rightarrow> world" where
  "dict_set_x a v w = w\<lparr>dict_cells := (dict_cells w)(a := (dict_cells w a)\<lparr>shape_x := v\<rparr>)\<rparr>"

definition dict_set_y :: "addr \<Rightarrow> int \<Rightarrow> world \<Rightarrow> world" where
  "dict_set_y a v w = w\<lparr>dict_cells := (dict_cells w)(a := (dict_cells w a)\<lparr>shape_y := v\<rparr>)\<rparr>"

subsection \<open>Scene generation\<close>

text \<open>The dictionary returned by \<^verbatim>\<open>_generate_task_data\<close>; \<^verbatim>\<open>"shapes"\<close> is a list of
  references to the shape dictionaries.\<close>

record task_data =
  td_shapes :: "addr list"
  td_num_shapes :: int
  td_type :: string

definition spread :: int where
  "spread = 60"

definition shape_types :: "string list" where
  "shape_types = [''circle'', ''square'', ''triangle'']"

text \<open>One iteration of the loop \<^verbatim>\<open>for i in range(num_shapes)\<close>. Taking the index modulo the
  length of an empty palette raises \<^verbatim>\<open>ZeroDivisionError\<close>.\<close>

definition gen_shape ::
  "task_config \<Rightarrow> int \<Rightarrow> int \<Rightarrow> addr \<Rightarrow> nat \<Rightarrow> world \<Rightarrow> error + (addr \<times> world)" where
  "gen_shape cfg center_x center_y available_colors i w =
     ebind (randint (- spread) spread w) (\<lambda>(dx, w1).
     ebind (randint (- spread) spread w1) (\<lambda>(dy, w2).
     ebind (randint (min_shape_size cfg) (max_shape_size cfg) w2) (\<lambda>(sz, w3).
     ebind (choice shape_types w3) (\<lambda>(ty, w4).
       (let pal = list_cells w4 available_colors
        in if length pal = 0 then Inl ZeroDivisionError
           else Inr (dict_new
                  \<lparr>shape_x = center_x + dx, shape_y = center_y + dy, shape_size = sz,
                   shape_type = ty, shape_color = pal ! (i mod length pal),
                   shape_layer = int i\<rparr> w4))))))"

fun gen_loop ::
  "task_config \<Rightarrow> int \<Rightarrow> int \<Rightarrow> addr \<Rightarrow> nat list \<Rightarrow> addr list \<Rightarrow> world
     \<Rightarrow> error + (addr list \<times> world)" where
  "gen_loop cfg center_x center_y available_colors [] shapes w = Inr (shapes, w)"
| "gen_loop cfg center_x center_y available_colors (i # rest) shapes w =
     ebind (gen_shape cfg center_x center_y available_colors i w) (\<lambda>(a, w').
       gen_loop cfg center_x center_y available_colors rest (shapes @ [a]) w')"

definition generate_task_data :: "task_config \<Rightarrow> world \<Rightarrow> error + (task_data \<times> world)" where
  "generate_task_data cfg w =
     ebind (randint (min_shapes cfg) (max_shapes cfg) w) (\<lambda>(num_shapes, w1).
       (let (width, height) = image_size cfg;
            center_x = width div 2;
            center_y = height div 2;
            (available_colors, w2) = list_copy (shape_colors cfg) w1;
            w3 = shuffle available_colors w2
        in ebind (gen_loop cfg center_x center_y available_colors [0..<nat num_shapes] [] w3)
             (\<lambda>(shapes, w4).
                Inr (\<lparr>td_shapes = shapes, td_num_shapes = num_shapes,
                      td_type = ''default''\<rparr>, w4))))"

text \<open>Successive calls of \<^verbatim>\<open>_generate_task_data\<close> on the same generator, each starting in
  the state the previous one left.\<close>

fun generate_many :: "nat \<Rightarrow> task_config \<Rightarrow> world \<Rightarrow> error + world" where
  "generate_many 0 cfg w = Inr w"
| "generate_many (Suc k) cfg w =
     ebind (generate_task_data cfg w) (\<lambda>(td, w'). generate_many k cfg w')"

subsection \<open>Images\<close>

text \<open>PIL is outside the repository. An image is represented by how it was made: its
  mode, size and initial colour, and the sequence of drawing operations applied to it.
  Two images with the same history have the same pixels, which is the only fact about
  PIL that the development relies on.\<close>

datatype font = TrueType string int | DefaultFont

datatype pil_color = RGB rgb | RGBA rgba

text \<open>Calls of \<^verbatim>\<open>ImageDraw\<close>: \<^verbatim>\<open>ellipse\<close> and \<^verbatim>\<open>rectangle\<close> (box, fill, outline, width),
  \<^verbatim>\<open>polygon\<close> (points, fill, outline, width), \<^verbatim>\<open>line\<close> (points, fill, width) and
  \<^verbatim>\<open>text\<close> (position, text, fill, font).\<close>

datatype draw_call =
    Ellipse "int \<times> int \<times> int \<times> int" pil_color pil_color int
  | Rectangle "int \<times> int \<times> int \<times> int" pil_color pil_color int
  | Polygon "(int \<times> int) list" pil_color "pil_color option" int
  | Line "(int \<times> int) list" pil_color int
  | Text "int \<times> int" string pil_color font

text \<open>An operation on an image is either an \<^verbatim>\<open>ImageDraw\<close> call made directly on it, or one
  call of \<^verbatim>\<open>_draw_shape\<close>, recorded with the contents of the dictionary and the offsets it
  was given.\<close>

datatype image_op = Direct draw_call | DrawShape shape int int

record image =
  img_mode :: string
  img_size :: "int \<times> int"
  img_fill :: pil_color
  img_ops :: "image_op list"

definition new_image :: "string \<Rightarrow> int \<times> int \<Rightarrow> pil_color \<Rightarrow> image" where
  "new_image mode sz color = \<lparr>img_mode = mode, img_size = sz, img_fill = color, img_ops = []\<rparr>"

definition convert :: "image \<Rightarrow> string \<Rightarrow> image" where
  "convert img mode = img\<lparr>img_mode := mode\<rparr>"

text \<open>\<^verbatim>\<open>img.copy()\<close> is a new image object with the same pixels.\<close>

definition copy_image :: "image \<Rightarrow> image" where
  "copy_image img = img"

definition draw_on :: "image \<Rightarrow> draw_call \<Rightarrow> image" where
  "draw_on img c = img\<lparr>img_ops := img_ops img @ [Direct c]\<rparr>"

text \<open>What \<^verbatim>\<open>_draw_shape\<close> draws on its transparent temporary layer. A type other than the
  three known ones falls through the \<^verbatim>\<open>if\<close>/\<^verbatim>\<open>elif\<close> chain and draws nothing.\<close>

definition shape_calls :: "shape \<Rightarrow> int \<Rightarrow> int \<Rightarrow> draw_call list" where
  "shape_calls shape offset_x offset_y =
     (let x = shape_x shape + offset_x;
          y = shape_y shape + offset_y;
          size = shape_size shape;
          color = shape_color shape;
          half = size div 2
      in if shape_type shape = ''circle'' then
           [Ellipse (x - half, y - half, x + half, y + half)
              (RGBA color) (RGBA (0, 0, 0, 255)) 2]
         else if shape_type shape = ''square'' then
           [Rectangle (x - half, y - half, x + half, y + half)
              (RGBA color) (RGBA (0, 0, 0, 255)) 2]
         else if shape_type shape = ''triangle'' then
           [Polygon [(x, y - half), (x - half, y + half), (x + half, y + half)]
              (RGBA color) (Some (RGBA (0, 0, 0, 255))) 2]
         else [])"

text \<open>\<^verbatim>\<open>_draw_shape\<close> reads the dictionary it is given and pastes the temporary layer onto
  the image, with the layer itself as the mask.\<close>

definition draw_shape :: "image \<Rightarrow> shape \<Rightarrow> int \<Rightarrow> int \<Rightarrow> image" where
  "draw_shape img shape offset_x offset_y =
     img\<lparr>img_ops := img_ops img @ [DrawShape shape offset_x offset_y]\<rparr>"

text \<open>The shapes an image received through \<^verbatim>\<open>_draw_shape\<close>, in the order of the calls.\<close>

fun drawn_shapes :: "image_op list \<Rightarrow> shape list" where
  "drawn_shapes [] = []"
| "drawn_shapes (Direct c # ops) = drawn_shapes ops"
| "drawn_shapes (DrawShape s ox oy # ops) = s # drawn_shapes ops"

text \<open>The pixel operations of PIL, as parameters: the pixel of a transparent layer after
  some \<^verbatim>\<open>ImageDraw\<close> calls, the pixel \<^verbatim>\<open>Image.paste\<close> produces from a source pixel (which is
  also the mask) and a destination pixel, and the effect of a direct call on a pixel.\<close>

record pil =
  layer_pixel :: "draw_call list \<Rightarrow> int \<times> int \<Rightarrow> rgba"
  paste_pixel :: "rgba \<Rightarrow> rgba \<Rightarrow> rgba"
  direct_pixel :: "draw_call \<Rightarrow> int \<times> int \<Rightarrow> rgba \<Rightarrow> rgba"

definition apply_op :: "pil \<Rightarrow> int \<times> int \<Rightarrow> rgba \<Rightarrow> image_op \<Rightarrow> rgba" where
  "apply_op P p acc op =
     (case op of
        Direct c \<Rightarrow> direct_pixel P c p acc
      | DrawShape s ox oy \<Rightarrow> paste_pixel P (layer_pixel P (shape_calls s ox oy) p) acc)"

definition composite :: "pil \<Rightarrow> rgba \<Rightarrow> image_op list \<Rightarrow> int \<times> int \<Rightarrow> rgba" where
  "composite P bg ops p = foldl (apply_op P p) bg ops"

subsection \<open>The platform\<close>

text \<open>The collaborators that are not part of the core: the fonts that can be loaded, the
  rounding of floating-point results to the nearest representable number, the temporary
  directory and whether a directory can be created in the file system (\<^verbatim>\<open>Path.mkdir\<close> raises
  \<^verbatim>\<open>OSError\<close> when it cannot), and \<^verbatim>\<open>core.video_utils.VideoGenerator\<close>.\<close>

record video_generator =
  vg_fps :: int
  vg_output_format :: string

text \<open>What the encoder may return: \<^verbatim>\<open>None\<close>, a Boolean, a string or a path object.\<close>

datatype pyval = PyNone | PyBool bool | PyStr string | PyPath string

fun truthy :: "pyval \<Rightarrow> bool" where
  "truthy PyNone = False"
| "truthy (PyBool b) = b"
| "truthy (PyStr s) = (s \<noteq> [])"
| "truthy (PyPath s) = True"

fun py_str :: "pyval \<Rightarrow> string" where
  "py_str PyNone = ''None''"
| "py_str (PyBool b) = (if b then ''True'' else ''False'')"
| "py_str (PyStr s) = s"
| "py_str (PyPath s) = s"

record platform =
  has_font :: "string \<Rightarrow> bool"
  rnd :: "real \<Rightarrow> real"
  tempdir :: string
  mkdir_ok :: "string \<Rightarrow> bool"
  video_available :: bool
  create_video_from_frames :: "video_generator \<Rightarrow> image list \<Rightarrow> string \<Rightarrow> pyval"

subsection \<open>Integer and floating-point operations of Python\<close>

text \<open>\<^verbatim>\<open>a // b\<close> on integers rounds towards minus infinity, as \<open>div\<close> does, and raises on a
  zero divisor.\<close>

definition floordiv :: "int \<Rightarrow> int \<Rightarrow> error + int" where
  "floordiv a b = (if b = 0 then Inl ZeroDivisionError else Inr (a div b))"

definition getitem :: "'a list \<Rightarrow> nat \<Rightarrow> error + 'a" where
  "getitem xs i = (if i < length xs then Inr (xs ! i) else Inl IndexError)"

text \<open>\<^verbatim>\<open>str(n)\<close> for a natural number.\<close>

definition digit_char :: "nat \<Rightarrow> char" where
  "digit_char d = ''0123456789'' ! d"

fun str_nat :: "nat \<Rightarrow> string" where
  "str_nat n = (if n < 10 then [digit_char n] else str_nat (n div 10) @ [digit_char (n mod 10)])"

declare str_nat.simps [simp del]

text \<open>A floating-point operation is the exact operation followed by the platform's
  rounding; the conversion of an integer to a float rounds as well (an integer beyond the
  range of floats, for which Python raises \<^verbatim>\<open>OverflowError\<close>, is not distinguished).
  \<^verbatim>\<open>int(f)\<close> truncates towards zero.\<close>

definition to_float :: "platform \<Rightarrow> int \<Rightarrow> real" where
  "to_float env i = rnd env (of_int i)"

definition py_int :: "real \<Rightarrow> int" where
  "py_int r = (if 0 \<le> r then \<lfloor>r\<rfloor> else \<lceil>r\<rceil>)"

subsection \<open>The static renders\<close>

text \<open>\<^verbatim>\<open>sorted(shapes, key=lambda s: s["layer"])\<close> is stable; with \<^verbatim>\<open>reverse=True\<close> the list
  is reversed, sorted stably and reversed again, so that equal keys keep their order.\<close>

definition sorted_by_layer :: "world \<Rightarrow> addr list \<Rightarrow> addr list" where
  "sorted_by_layer w refs = sort_key (\<lambda>a. shape_layer (dict_cells w a)) refs"

definition sorted_by_layer_reverse :: "world \<Rightarrow> addr list \<Rightarrow> addr list" where
  "sorted_by_layer_reverse w refs =
     rev (sort_key (\<lambda>a. shape_layer (dict_cells w a)) (rev refs))"

definition background :: "task_config \<Rightarrow> pil_color" where
  "background cfg = (case bg_color cfg of (r, g, b) \<Rightarrow> RGBA (r, g, b, 255))"

definition render_overlapping :: "task_config \<Rightarrow> task_data \<Rightarrow> world \<Rightarrow> image" where
  "render_overlapping cfg task_data w =
     (let (width, height) = image_size cfg;
          img = new_image ''RGBA'' (width, height) (background cfg);
          shapes = sorted_by_layer w (td_shapes task_data);
          img = foldl (\<lambda>img a. draw_shape img (dict_cells w a) 0 0) img shapes
      in convert img ''RGB'')"

definition margin :: int where
  "margin = 40"

text \<open>The \<^verbatim>\<open>try\<close>/\<^verbatim>\<open>except\<close> around the two \<^verbatim>\<open>ImageFont.truetype\<close> calls: if either fails, both
  fonts are the default one.\<close>

definition bold_font_path :: string where
  "bold_font_path = ''/usr/share/fonts/truetype/dejavu/DejaVuSans-Bold.ttf''"

definition plain_font_path :: string where
  "plain_font_path = ''/usr/share/fonts/truetype/dejavu/DejaVuSans.ttf''"

definition load_fonts :: "platform \<Rightarrow> font \<times> font" where
  "load_fonts env =
     (if has_font env bold_font_path \<and> has_font env plain_font_path
      then (TrueType bold_font_path 14, TrueType plain_font_path 12)
      else (DefaultFont, DefaultFont))"

text \<open>The loop \<^verbatim>\<open>for i, shape in enumerate(shapes)\<close> of \<^verbatim>\<open>_render_separated\<close>. The shape is
  copied, the copy is moved, and the copy is drawn; the label reads the size from the
  original.\<close>

definition separated_body ::
  "task_config \<Rightarrow> font \<Rightarrow> int \<Rightarrow> int \<Rightarrow> nat \<Rightarrow> addr \<Rightarrow> image \<Rightarrow> world
     \<Rightarrow> image \<times> world" where
  "separated_body cfg small_font spacing height i shape img w =
     (let new_x = margin + spacing * (int i + 1);
          new_y = height div 2;
          (temp_shape, w1) = dict_copy shape w;
          w2 = dict_set_x temp_shape new_x w1;
          w3 = dict_set_y temp_shape new_y w2;
          img1 = draw_shape img (dict_cells w3 temp_shape) 0 0;
          img2 = draw_on img1
                   (Text (new_x - 5, new_y + shape_size (dict_cells w3 shape) div 2 + 10)
                      (str_nat (i + 1)) (RGB (label_color cfg)) small_font)
      in (img2, w3))"

fun separated_loop ::
  "task_config \<Rightarrow> font \<Rightarrow> int \<Rightarrow> int \<Rightarrow> (nat \<times> addr) list \<Rightarrow> image \<Rightarrow> world
     \<Rightarrow> image \<times> world" where
  "separated_loop cfg small_font spacing height [] img w = (img, w)"
| "separated_loop cfg small_font spacing height (ia # rest) img w =
     (case separated_body cfg small_font spacing height (fst ia) (snd ia) img w of
        (img', w') \<Rightarrow> separated_loop cfg small_font spacing height rest img' w')"

definition render_separated ::
  "platform \<Rightarrow> task_config \<Rightarrow> task_data \<Rightarrow> world \<Rightarrow> error + (image \<times> world)" where
  "render_separated env cfg task_data w =
     (let (width, height) = image_size cfg;
          img = new_image ''RGBA'' (width, height) (background cfg);
          shapes = sorted_by_layer_reverse w (td_shapes task_data);
          num_shapes = int (length shapes);
          available_width = width - 2 * margin
      in ebind (floordiv available_width (num_shapes + 1)) (\<lambda>spacing.
           (let (font, small_font) = load_fonts env;
                img = draw_on img (Text (margin, 30) ''FRONT'' (RGB (label_color cfg)) font);
                img = draw_on img
                        (Text (width - margin - 40, 30) ''BACK'' (RGB (label_color cfg)) font);
                arrow_y = 45;
                img = draw_on img
                        (Line [(margin + 50, arrow_y), (width - margin - 50, arrow_y)]
                           (RGB (150, 150, 150)) 2);
                img = draw_on img
                        (Polygon [(width - margin - 50, arrow_y),
                                  (width - margin - 60, arrow_y - 5),
                                  (width - margin - 60, arrow_y + 5)]
                           (RGB (150, 150, 150)) None 1);
                (img, w') = separated_loop cfg small_font spacing height
                              (enumerate 0 shapes) img w
            in Inr (convert img ''RGB'', w'))))"

definition render_initial_state :: "task_config \<Rightarrow> task_data \<Rightarrow> world \<Rightarrow> image" where
  "render_initial_state cfg task_data w = render_overlapping cfg task_data w"

definition render_final_state ::
  "platform \<Rightarrow> task_config \<Rightarrow> task_data \<Rightarrow> world \<Rightarrow> error + (image \<times> world)" where
  "render_final_state env cfg task_data w = render_separated env cfg task_data w"

subsection \<open>The animation\<close>

definition hold_frames :: nat where
  "hold_frames = 5"

definition animation_frames :: nat where
  "animation_frames = 25"

text \<open>The two assignments to \<^verbatim>\<open>progress\<close>: the quotient \<^verbatim>\<open>frame_idx / (animation_frames - 1)\<close>,
  then the ease-out curve \<^verbatim>\<open>1 - (1 - progress) ** 2\<close>, the power being the rounded square.\<close>

definition ease :: "platform \<Rightarrow> nat \<Rightarrow> real" where
  "ease env frame_idx =
     (let progress = rnd env (real frame_idx / real (animation_frames - 1))
      in rnd env (1 - rnd env ((rnd env (1 - progress))\<^sup>2)))"

text \<open>\<^verbatim>\<open>start + (end - start) * progress\<close> with integer \<^verbatim>\<open>start\<close> and \<^verbatim>\<open>end\<close>.\<close>

definition interpolate :: "platform \<Rightarrow> int \<Rightarrow> int \<Rightarrow> real \<Rightarrow> real" where
  "interpolate env start_v end_v progress =
     rnd env (to_float env start_v + rnd env (to_float env (end_v - start_v) * progress))"

text \<open>The inner loop \<^verbatim>\<open>for i, shape in enumerate(shapes)\<close> of \<^verbatim>\<open>_generate_video\<close>.\<close>

definition frame_body ::
  "platform \<Rightarrow> real \<Rightarrow> (int \<times> int) list \<Rightarrow> nat \<Rightarrow> addr \<Rightarrow> image \<Rightarrow> world
     \<Rightarrow> error + (image \<times> world)" where
  "frame_body env progress final_positions i shape img w =
     (let start_x = shape_x (dict_cells w shape);
          start_y = shape_y (dict_cells w shape)
      in ebind (getitem final_positions i) (\<lambda>(end_x, end_y).
           (let curr_x = interpolate env start_x end_x progress;
                curr_y = interpolate env start_y end_y progress;
                (temp_shape, w1) = dict_copy shape w;
                w2 = dict_set_x temp_shape (py_int curr_x) w1;
                w3 = dict_set_y temp_shape (py_int curr_y) w2
            in Inr (draw_shape img (dict_cells w3 temp_shape) 0 0, w3))))"

fun frame_loop ::
  "platform \<Rightarrow> real \<Rightarrow> (int \<times> int) list \<Rightarrow> (nat \<times> addr) list \<Rightarrow> image \<Rightarrow> world
     \<Rightarrow> error + (image \<times> world)" where
  "frame_loop env progress final_positions [] img w = Inr (img, w)"
| "frame_loop env progress final_positions (ia # rest) img w =
     ebind (frame_body env progress final_positions (fst ia) (snd ia) img w)
       (\<lambda>r. frame_loop env progress final_positions rest (fst r) (snd r))"

text \<open>One iteration of \<^verbatim>\<open>for frame_idx in range(animation_frames)\<close>.\<close>

definition animate_body ::
  "platform \<Rightarrow> task_config \<Rightarrow> (int \<times> int) list \<Rightarrow> addr list \<Rightarrow> nat \<Rightarrow> world
     \<Rightarrow> error + (image \<times> world)" where
  "animate_body env cfg final_positions shapes frame_idx w =
     (let progress = ease env frame_idx;
          (width, height) = image_size cfg;
          img = new_image ''RGBA'' (width, height) (background cfg)
      in ebind (frame_loop env progress final_positions (enumerate 0 shapes) img w)
           (\<lambda>r. Inr (convert (fst r) ''RGB'', snd r)))"

fun animate ::
  "platform \<Rightarrow> task_config \<Rightarrow> (int \<times> int) list \<Rightarrow> addr list \<Rightarrow> nat list \<Rightarrow> image list
     \<Rightarrow> world \<Rightarrow> error + (image list \<times> world)" where
  "animate env cfg final_positions shapes [] frames w = Inr (frames, w)"
| "animate env cfg final_positions shapes (frame_idx # rest) frames w =
     ebind (animate_body env cfg final_positions shapes frame_idx w)
       (\<lambda>r. animate env cfg final_positions shapes rest (frames @ [fst r]) (snd r))"

text \<open>The list \<^verbatim>\<open>frames\<close> that \<^verbatim>\<open>_generate_video\<close> hands to the encoder.\<close>

definition video_frames ::
  "platform \<Rightarrow> task_config \<Rightarrow> image \<Rightarrow> image \<Rightarrow> task_data \<Rightarrow> world
     \<Rightarrow> error + (image list \<times> world)" where
  "video_frames env cfg first_image final_image task_data w =
     (let (width, height) = image_size cfg;
          shapes = sorted_by_layer_reverse w (td_shapes task_data);
          num_shapes = length shapes;
          available_width = width - 2 * margin
      in ebind (floordiv available_width (int num_shapes + 1)) (\<lambda>spacing.
           (let final_positions =
                  map (\<lambda>i. (margin + spacing * (int i + 1), height div 2)) [0..<num_shapes];
                frames = replicate hold_frames (copy_image first_image)
            in ebind (animate env cfg final_positions shapes [0..<animation_frames] frames w)
                 (\<lambda>r. Inr (fst r @ replicate (hold_frames * 2) (copy_image final_image),
                            snd r)))))"

subsection \<open>The generator and the task pair\<close>

text \<open>The generator object: its configuration and the optional encoder. (The
  \<^verbatim>\<open>ImageRenderer\<close> it also holds is never used.)\<close>

record task_generator =
  gen_config :: task_config
  gen_video_generator :: "video_generator option"

definition init_generator :: "platform \<Rightarrow> task_config \<Rightarrow> task_generator" where
  "init_generator env config =
     \<lparr>gen_config = config,
      gen_video_generator =
        (if generate_videos config \<and> video_available env
         then Some \<lparr>vg_fps = video_fps config, vg_output_format = ''mp4''\<rparr>
         else None)\<rparr>"

text \<open>Modelled from the spec: the \<^verbatim>\<open>TaskPair\<close> container of the \<^verbatim>\<open>core\<close> package, which is
  not among the sources; a plain holder of the six values it is constructed with.\<close>

record task_pair =
  tp_task_id :: string
  tp_domain :: string
  tp_prompt :: string
  tp_first_image :: image
  tp_final_image :: image
  tp_ground_truth_video :: "string option"

text \<open>The directory \<^verbatim>\<open>Path(tempfile.gettempdir()) / f"{domain}_videos"\<close> and the path
  \<^verbatim>\<open>temp_dir / f"{task_id}_ground_truth.mp4"\<close> of the video file.\<close>

definition temp_dir_of :: "platform \<Rightarrow> task_config \<Rightarrow> string" where
  "temp_dir_of env cfg = tempdir env @ ''/'' @ cfg_domain cfg @ ''_videos''"

definition video_path_of :: "platform \<Rightarrow> task_config \<Rightarrow> string \<Rightarrow> string" where
  "video_path_of env cfg task_id =
     temp_dir_of env cfg @ ''/'' @ task_id @ ''_ground_truth.mp4''"

text \<open>\<^verbatim>\<open>_generate_video\<close>: the temporary directory is created first, and the exception of
  \<^verbatim>\<open>temp_dir.mkdir(parents=True, exist_ok=True)\<close> is not caught; then the frames are built and
  handed to the encoder with the output path; a falsy result becomes \<^verbatim>\<open>None\<close>. Calling a
  method on an absent encoder raises \<^verbatim>\<open>AttributeError\<close>.\<close>

definition generate_video ::
  "platform \<Rightarrow> task_generator \<Rightarrow> image \<Rightarrow> image \<Rightarrow> string \<Rightarrow> task_data \<Rightarrow> world
     \<Rightarrow> error + (string option \<times> world)" where
  "generate_video env self first_image final_image task_id task_data w =
     (let temp_dir = temp_dir_of env (gen_config self)
      in if \<not> mkdir_ok env temp_dir then Inl OSError
         else
           (let video_path = video_path_of env (gen_config self) task_id
            in ebind (video_frames env (gen_config self) first_image final_image task_data w)
                 (\<lambda>r. case gen_video_generator self of
                         None \<Rightarrow> Inl AttributeError
                       | Some vg \<Rightarrow>
                           (let result = create_video_from_frames env vg (fst r) video_path
                            in Inr (if truthy result then Some (py_str result) else None,
                                    snd r)))))"

text \<open>\<^verbatim>\<open>prompts.py\<close>.\<close>

definition default_prompts :: "string list" where
  "default_prompts =
     [''Identify the layer order of these overlapping shapes from front to back, then show them separated.'',
      ''Determine which shape is in front and which is in back. Separate them to show the depth order.'',
      ''These shapes overlap. Figure out the layer order based on occlusion and display them front to back.'']"

definition get_prompt :: "string \<Rightarrow> world \<Rightarrow> error + (string \<times> world)" where
  "get_prompt task_type w =
     (let prompts = (if task_type = ''default'' then default_prompts else default_prompts)
      in choice prompts w)"

definition generate_task_pair ::
  "platform \<Rightarrow> task_generator \<Rightarrow> string \<Rightarrow> world \<Rightarrow> error + (task_pair \<times> world)" where
  "generate_task_pair env self task_id w =
     ebind (generate_task_data (gen_config self) w) (\<lambda>(task_data, w1).
       (let first_image = render_initial_state (gen_config self) task_data w1
        in ebind (render_final_state env (gen_config self) task_data w1) (\<lambda>(final_image, w2).
             ebind (if generate_videos (gen_config self) \<and> gen_video_generator self \<noteq> None
                    then generate_video env self first_image final_image task_id task_data w2
                    else Inr (None, w2)) (\<lambda>(video_path, w3).
               ebind (get_prompt (td_type task_data) w3) (\<lambda>(prompt, w4).
                 Inr (\<lparr>tp_task_id = task_id, tp_domain = cfg_domain (gen_config self),
                       tp_prompt = prompt, tp_first_image = first_image,
                       tp_final_image = final_image,
                       tp_ground_truth_video = video_path\<rparr>, w4))))))"

subsection \<open>The default configuration\<close>

text \<open>The field defaults of \<^verbatim>\<open>TaskConfig\<close> in \<^verbatim>\<open>config.py\<close>, and a state in which nothing but
  the default palette has been allocated (at address 0).\<close>

definition default_palette :: "rgba list" where
  "default_palette =
     [(255, 100, 100, 180), (100, 255, 100, 180), (100, 100, 255, 180),
      (255, 255, 100, 180), (255, 100, 255, 180), (100, 255, 255, 180)]"

definition default_config :: task_config where
  "default_config =
     \<lparr>cfg_domain = ''layer_depth'', image_size = (512, 512), generate_videos = True,
      video_fps = 10, min_shapes = 3, max_shapes = 5, min_shape_size = 80,
      max_shape_size = 150, shape_colors = 0, bg_color = (255, 255, 255),
      label_color = (50, 50, 50)\<rparr>"

definition blank_shape :: shape where
  "blank_shape =
     \<lparr>shape_x = 0, shape_y = 0, shape_size = 0, shape_type = [], shape_color = (0, 0, 0, 0),
      shape_layer = 0\<rparr>"

definition initial_world :: "(nat \<Rightarrow> nat) \<Rightarrow> world" where
  "initial_world draws =
     \<lparr>rng_draws = draws, rng_pos = 0, dict_cells = (\<lambda>a. blank_shape), dict_next = 0,
      list_cells = (\<lambda>a. [])(0 := default_palette), list_next = 1\<rparr>"

subsection \<open>Sample inputs\<close>

text \<open>A platform without the DejaVu fonts, with exact arithmetic on the floats it meets,
  a writable temporary directory, and an encoder that always succeeds.\<close>

definition test_platform :: platform where
  "test_platform =
     \<lparr>has_font = (\<lambda>p. False), rnd = (\<lambda>r. r), tempdir = ''/tmp'', mkdir_ok = (\<lambda>p. True),
      video_available = True,
      create_video_from_frames = (\<lambda>vg frames path. PyPath path)\<rparr>"

text \<open>The same platform with an encoder that fails, returning \<^verbatim>\<open>False\<close>, exactly when it is
  given 40 frames.\<close>

definition flaky_platform :: platform where
  "flaky_platform =
     test_platform\<lparr>create_video_from_frames :=
       (\<lambda>vg frames path. if length frames = 40 then PyBool False else PyPath path)\<rparr>"

definition zero_entropy :: "nat \<Rightarrow> nat" where
  "zero_entropy n = 0"

text \<open>A scene of three shapes as the default configuration can generate it, in a state
  where only these three dictionaries and the default palette exist.\<close>

definition demo_shapes :: "shape list" where
  "demo_shapes =
     [\<lparr>shape_x = 250, shape_y = 260, shape_size = 100, shape_type = ''circle'',
       shape_color = (255, 100, 100, 180), shape_layer = 0\<rparr>,
      \<lparr>shape_x = 270, shape_y = 240, shape_size = 120, shape_type = ''square'',
       shape_color = (100, 255, 100, 180), shape_layer = 1\<rparr>,
      \<lparr>shape_x = 230, shape_y = 280, shape_size = 90, shape_type = ''triangle'',
       shape_color = (100, 100, 255, 180), shape_layer = 2\<rparr>]"

definition demo_world :: world where
  "demo_world =
     \<lparr>rng_draws = zero_entropy, rng_pos = 0,
      dict_cells = (\<lambda>a. if a < 3 then demo_shapes ! a else blank_shape), dict_next = 3,
      list_cells = (\<lambda>a. [])(0 := default_palette), list_next = 1\<rparr>"

definition demo_scene :: task_data where
  "demo_scene = \<lparr>td_shapes = [0, 1, 2], td_num_shapes = 3, td_type = ''default''\<rparr>"

text \<open>The default configuration on a canvas 82 pixels wide, with exactly two shapes.\<close>

definition narrow_config :: task_config where
  "narrow_config = default_config\<lparr>image_size := (82, 82), min_shapes := 2, max_shapes := 2\<rparr>"

text \<open>Generating a scene and rendering it separated, as \<^verbatim>\<open>generate_task_pair\<close> does, and
  reading off the layer and the position of each shape drawn, in drawing order.\<close>

definition separated_layout ::
  "platform \<Rightarrow> task_config \<Rightarrow> world \<Rightarrow> error + (int \<times> int \<times> int) list" where
  "separated_layout env cfg w =
     ebind (generate_task_data cfg w) (\<lambda>(task_data, w1).
       ebind (render_separated env cfg task_data w1) (\<lambda>(img, w2).
         Inr (map (\<lambda>s. (shape_layer s, shape_x s, shape_y s)) (drawn_shapes (img_ops img)))))"

subsection \<open>Notions used in the statements\<close>

text \<open>The two properties of floating-point rounding that the results about the animation
  rely on: rounding is monotone, and an integer of magnitude at most \<open>2\<^sup>5\<^sup>3\<close> is
  representable, hence rounded to itself. Round-to-nearest on IEEE doubles has both.\<close>

definition faithful_rounding :: "(real \<Rightarrow> real) \<Rightarrow> bool" where
  "faithful_rounding r \<longleftrightarrow> mono r \<and> (\<forall>i::int. \<bar>i\<bar> \<le> 2 ^ 53 \<longrightarrow> r (of_int i) = of_int i)"

text \<open>The list \<^verbatim>\<open>final_positions\<close> of \<^verbatim>\<open>_generate_video\<close> for \<open>n\<close> shapes, and the contents of
  the copy that the inner loop of \<^verbatim>\<open>_generate_video\<close> draws for a shape and its target.\<close>

definition layout_targets :: "int \<Rightarrow> int \<Rightarrow> nat \<Rightarrow> (int \<times> int) list" where
  "layout_targets width height n =
     map (\<lambda>i. (margin + ((width - 2 * margin) div (int n + 1)) * (int i + 1), height div 2))
       [0..<n]"

definition moved_shape :: "platform \<Rightarrow> real \<Rightarrow> shape \<Rightarrow> int \<times> int \<Rightarrow> shape" where
  "moved_shape env progress s target =
     s\<lparr>shape_x := py_int (interpolate env (shape_x s) (fst target) progress),
       shape_y := py_int (interpolate env (shape_y s) (snd target) progress)\<rparr>"

section \<open>Properties\<close>

subsection \<open>Auxiliary facts about the random module and the store\<close>


lemma randbelow_store:
  "randbelow n w = (r, w') \<Longrightarrow>
     dict_cells w' = dict_cells w \<and> dict_next w' = dict_next w \<and>
     list_cells w' = list_cells w \<and> list_next w' = list_next w"
  by (auto simp: randbelow_def)

lemma randbelow_less: "randbelow n w = (r, w') \<Longrightarrow> 0 < n \<Longrightarrow> r < n"
  by (auto simp: randbelow_def)

lemma randint_Inr:
  assumes "randint a b w = Inr (v, w')"
  shows "a \<le> v \<and> v \<le> b \<and> dict_cells w' = dict_cells w \<and> dict_next w' = dict_next w \<and>
     list_cells w' = list_cells w \<and> list_next w' = list_next w"
proof -
  from assms have ab: "a \<le> b" by (auto simp: randint_def split: if_splits)
  obtain r w1 where rb: "randbelow (nat (b - a + 1)) w = (r, w1)" by (cases "randbelow (nat (b - a + 1)) w")
  with assms ab have v: "v = a + int r" "w' = w1" by (auto simp: randint_def)
  from randbelow_less[OF rb] ab have "r < nat (b - a + 1)" by simp
  with v randbelow_store[OF rb] show ?thesis by auto
qed

lemma choice_Inr:
  assumes "choice seq w = Inr (v, w')"
  shows "v \<in> set seq \<and> dict_cells w' = dict_cells w \<and> dict_next w' = dict_next w \<and>
     list_cells w' = list_cells w \<and> list_next w' = list_next w"
proof -
  from assms have ne: "seq \<noteq> []" by (auto simp: choice_def split: if_splits)
  obtain r w1 where rb: "randbelow (length seq) w = (r, w1)" by (cases "randbelow (length seq) w")
  with assms ne have v: "v = seq ! r" "w' = w1" by (auto simp: choice_def)
  from randbelow_less[OF rb] ne have "r < length seq" by simp
  with v randbelow_store[OF rb] show ?thesis by auto
qed

lemma ebind_eq_Inr: "(ebind m f = Inr r) = (\<exists>v. m = Inr v \<and> f v = Inr r)"
  by (cases m) (simp_all add: ebind_def)

lemma gen_shape_Inr:
  assumes "gen_shape cfg cx cy ac i w = Inr (a, w')"
  shows "a = dict_next w \<and> dict_next w' = Suc (dict_next w) \<and>
         list_cells w' = list_cells w \<and> list_next w' = list_next w \<and>
         list_cells w ac \<noteq> [] \<and>
         (\<exists>s. dict_cells w' = (dict_cells w)(a := s) \<and> shape_layer s = int i \<and>
              shape_color s = list_cells w ac ! (i mod length (list_cells w ac)))"
proof -
  from assms obtain dx w1 dy w2 sz w3 ty w4 where
    1: "randint (- spread) spread w = Inr (dx, w1)" and
    2: "randint (- spread) spread w1 = Inr (dy, w2)" and
    3: "randint (min_shape_size cfg) (max_shape_size cfg) w2 = Inr (sz, w3)" and
    4: "choice shape_types w3 = Inr (ty, w4)" and
    r4: "(let pal = list_cells w4 ac
        in if length pal = 0 then Inl ZeroDivisionError
           else Inr (dict_new
                  \<lparr>shape_x = cx + dx, shape_y = cy + dy, shape_size = sz,
                   shape_type = ty, shape_color = pal ! (i mod length pal),
                   shape_layer = int i\<rparr> w4)) = Inr (a, w')"
    unfolding gen_shape_def by (auto simp: ebind_eq_Inr)
  note s = randint_Inr[OF 1] randint_Inr[OF 2] randint_Inr[OF 3] choice_Inr[OF 4]
  from s have eq: "dict_cells w4 = dict_cells w" "dict_next w4 = dict_next w"
    "list_cells w4 = list_cells w" "list_next w4 = list_next w" by simp_all
  from r4 eq show ?thesis
    by (auto simp: Let_def dict_new_def split: if_splits)
qed

lemma upt_shift: "[n..<n + Suc k] = n # [Suc n..<Suc n + k]"
proof -
  have "n < n + Suc k" by simp
  from upt_conv_Cons[OF this] show ?thesis by (simp only: add_Suc add_Suc_right)
qed

lemma gen_loop_Inr:
  assumes "gen_loop cfg cx cy ac is shapes w = Inr (shapes', w')"
  shows "shapes' = shapes @ [dict_next w..<dict_next w + length is] \<and>
         dict_next w' = dict_next w + length is \<and>
         list_cells w' = list_cells w \<and> list_next w' = list_next w \<and>
         (\<forall>a < dict_next w. dict_cells w' a = dict_cells w a) \<and>
         (\<forall>k < length is. shape_layer (dict_cells w' (dict_next w + k)) = int (is ! k) \<and>
            list_cells w ac \<noteq> [] \<and>
            shape_color (dict_cells w' (dict_next w + k)) =
              list_cells w ac ! ((is ! k) mod length (list_cells w ac)))"
  using assms
proof (induction "is" arbitrary: shapes w)
  case Nil
  then show ?case by simp
next
  case (Cons i rest)
  from Cons.prems obtain a w1 where
    g: "gen_shape cfg cx cy ac i w = Inr (a, w1)" and
    l: "gen_loop cfg cx cy ac rest (shapes @ [a]) w1 = Inr (shapes', w')"
    by (auto simp: ebind_eq_Inr)
  note G = gen_shape_Inr[OF g]
  note IH = Cons.IH[OF l]
  from G obtain s where s: "dict_cells w1 = (dict_cells w)(a := s)" "shape_layer s = int i"
    "shape_color s = list_cells w ac ! (i mod length (list_cells w ac))" by blast
  have a: "a = dict_next w" and n1: "dict_next w1 = Suc (dict_next w)" using G by simp_all
  have "[dict_next w..<dict_next w + length (i # rest)] =
          dict_next w # [Suc (dict_next w)..<Suc (dict_next w) + length rest]"
    using upt_shift[of "dict_next w" "length rest"] by (simp only: list.size add_Suc_right add_0_right)
  hence "shapes' = shapes @ [dict_next w..<dict_next w + length (i # rest)]"
    using IH a n1 by simp
  moreover have "dict_next w' = dict_next w + length (i # rest)" using IH n1 by simp
  moreover have "list_cells w' = list_cells w" "list_next w' = list_next w" using IH G by simp_all
  moreover have old: "\<forall>b < dict_next w. dict_cells w' b = dict_cells w b"
    using IH n1 s a by auto
  moreover have "\<forall>k < length (i # rest). shape_layer (dict_cells w' (dict_next w + k)) = int ((i # rest) ! k) \<and>
            list_cells w ac \<noteq> [] \<and>
            shape_color (dict_cells w' (dict_next w + k)) =
              list_cells w ac ! (((i # rest) ! k) mod length (list_cells w ac))"
  proof (intro allI impI)
    fix k assume k: "k < length (i # rest)"
    show "shape_layer (dict_cells w' (dict_next w + k)) = int ((i # rest) ! k) \<and>
            list_cells w ac \<noteq> [] \<and>
            shape_color (dict_cells w' (dict_next w + k)) =
              list_cells w ac ! (((i # rest) ! k) mod length (list_cells w ac))"
    proof (cases k)
      case 0
      have "dict_cells w' (dict_next w) = dict_cells w1 (dict_next w)" using IH n1 by simp
      with 0 s a G show ?thesis by simp
    next
      case (Suc k')
      with k have "k' < length rest" by simp
      with IH have "shape_layer (dict_cells w' (dict_next w1 + k')) = int (rest ! k') \<and>
            shape_color (dict_cells w' (dict_next w1 + k')) =
              list_cells w1 ac ! ((rest ! k') mod length (list_cells w1 ac))" by blast
      with Suc n1 G show ?thesis by simp
    qed
  qed
  ultimately show ?case by blast
qed


lemma shuffle_from_Pair:
  "shuffle_from i xs w = (ys, w') \<Longrightarrow>
     dict_cells w' = dict_cells w \<and> dict_next w' = dict_next w \<and>
     list_cells w' = list_cells w \<and> list_next w' = list_next w \<and>
     length ys = length xs \<and> (i < length xs \<longrightarrow> mset ys = mset xs)"
proof (induction i arbitrary: xs w)
  case 0
  then show ?case by simp
next
  case (Suc i)
  obtain j w1 where rb: "randbelow (Suc i + 1) w = (j, w1)"
    by (cases "randbelow (Suc i + 1) w")
  with Suc.prems have r: "shuffle_from i (xs[Suc i := xs ! j, j := xs ! Suc i]) w1 = (ys, w')"
    by simp
  from randbelow_less[OF rb] have j: "j < Suc i + 1" by simp
  note IH = Suc.IH[OF r] and st = randbelow_store[OF rb]
  have "Suc i < length xs \<Longrightarrow> mset (xs[Suc i := xs ! j, j := xs ! Suc i]) = mset xs"
    using j by (intro mset_swap) simp_all
  with IH st show ?case by auto
qed

lemma shuffle_store:
  "dict_cells (shuffle a w) = dict_cells w \<and> dict_next (shuffle a w) = dict_next w \<and>
   list_next (shuffle a w) = list_next w \<and>
   (\<forall>b. b \<noteq> a \<longrightarrow> list_cells (shuffle a w) b = list_cells w b) \<and>
   mset (list_cells (shuffle a w) a) = mset (list_cells w a)"
proof -
  obtain ys w1 where sf:
    "shuffle_from (length (list_cells w a) - 1) (list_cells w a) w = (ys, w1)"
    by (cases "shuffle_from (length (list_cells w a) - 1) (list_cells w a) w")
  note S = shuffle_from_Pair[OF sf]
  have m: "mset ys = mset (list_cells w a)"
  proof (cases "list_cells w a = []")
    case True
    with S show ?thesis by simp
  next
    case False
    then have "length (list_cells w a) - 1 < length (list_cells w a)" by simp
    with S show ?thesis by blast
  qed
  from sf have "shuffle a w = w1\<lparr>list_cells := (list_cells w1)(a := ys)\<rparr>"
    by (simp add: shuffle_def)
  with S m show ?thesis by simp
qed

lemma generate_task_data_Inr:
  assumes "generate_task_data cfg w = Inr (td, w')"
  shows "min_shapes cfg \<le> td_num_shapes td \<and> td_num_shapes td \<le> max_shapes cfg \<and>
         td_shapes td = [dict_next w..<dict_next w + nat (td_num_shapes td)] \<and>
         dict_next w' = dict_next w + nat (td_num_shapes td) \<and>
         list_next w' = Suc (list_next w) \<and>
         (\<forall>a < dict_next w. dict_cells w' a = dict_cells w a) \<and>
         (\<forall>b. b \<noteq> list_next w \<longrightarrow> list_cells w' b = list_cells w b) \<and>
         mset (list_cells w' (list_next w)) = mset (list_cells w (shape_colors cfg)) \<and>
         (\<forall>k < nat (td_num_shapes td).
            shape_layer (dict_cells w' (dict_next w + k)) = int k \<and>
            list_cells w' (list_next w) \<noteq> [] \<and>
            shape_color (dict_cells w' (dict_next w + k)) =
              list_cells w' (list_next w) ! (k mod length (list_cells w' (list_next w))))"
proof -
  obtain width height where wh: "image_size cfg = (width, height)" by (cases "image_size cfg")
  from assms obtain n w1 where
    1: "randint (min_shapes cfg) (max_shapes cfg) w = Inr (n, w1)" and
    r: "(let (width, height) = image_size cfg;
            center_x = width div 2;
            center_y = height div 2;
            (available_colors, w2) = list_copy (shape_colors cfg) w1;
            w3 = shuffle available_colors w2
        in ebind (gen_loop cfg center_x center_y available_colors [0..<nat n] [] w3)
             (\<lambda>(shapes, w4).
                Inr (\<lparr>td_shapes = shapes, td_num_shapes = n,
                      td_type = ''default''\<rparr>, w4))) = Inr (td, w')"
    unfolding generate_task_data_def by (auto simp: ebind_eq_Inr)
  define w2 where "w2 = snd (list_copy (shape_colors cfg) w1)"
  define ac where "ac = list_next w1"
  define w3 where "w3 = shuffle ac w2"
  have lc: "list_copy (shape_colors cfg) w1 = (ac, w2)"
    by (simp add: w2_def ac_def list_copy_def)
  from r wh lc obtain shapes where
    l: "gen_loop cfg (width div 2) (height div 2) ac [0..<nat n] [] w3 = Inr (shapes, w')" and
    td: "td = \<lparr>td_shapes = shapes, td_num_shapes = n, td_type = ''default''\<rparr>"
    by (auto simp: ebind_eq_Inr w3_def)
  note R = randint_Inr[OF 1] and L = gen_loop_Inr[OF l] and S = shuffle_store[of ac w2]
  have w2: "dict_cells w2 = dict_cells w" "dict_next w2 = dict_next w"
    "list_next w2 = Suc (list_next w)" "ac = list_next w"
    "list_cells w2 = (list_cells w)(ac := list_cells w (shape_colors cfg))"
    using R by (simp_all add: w2_def ac_def list_copy_def)
  have w3: "dict_cells w3 = dict_cells w" "dict_next w3 = dict_next w"
    "list_next w3 = Suc (list_next w)"
    "\<forall>b. b \<noteq> ac \<longrightarrow> list_cells w3 b = list_cells w b"
    "mset (list_cells w3 ac) = mset (list_cells w (shape_colors cfg))"
    using S w2 by (simp_all add: w3_def)
  from L have lw': "list_cells w' = list_cells w3" by simp
  show ?thesis
    using R L w3 w2(4) td lw' by simp
qed


subsection \<open>Scene generation\<close>

text \<open>Claim C1. Whenever scene generation returns a scene, the number \<open>n\<close> of its shapes
  lies within the configured bounds, and the layers of the shapes, read in generation
  order, are \<open>0, 1, \<dots>, n - 1\<close>: the \<open>i\<close>-th shape has layer \<open>i\<close>, so every value of that range
  occurs exactly once.\<close>

theorem scene_layers_contiguous:
  assumes "generate_task_data cfg w = Inr (td, w')"
  shows "min_shapes cfg \<le> td_num_shapes td \<and> td_num_shapes td \<le> max_shapes cfg \<and>
         length (td_shapes td) = nat (td_num_shapes td) \<and>
         map (\<lambda>a. shape_layer (dict_cells w' a)) (td_shapes td) =
           map int [0..<length (td_shapes td)] \<and>
         mset (map (\<lambda>a. shape_layer (dict_cells w' a)) (td_shapes td)) =
           mset (map int [0..<length (td_shapes td)]) \<and>
         distinct (map (\<lambda>a. shape_layer (dict_cells w' a)) (td_shapes td))"
proof -
  note G = generate_task_data_Inr[OF assms]
  let ?n = "nat (td_num_shapes td)"
  have len: "length (td_shapes td) = ?n" using G by simp
  have lay: "map (\<lambda>a. shape_layer (dict_cells w' a)) (td_shapes td) = map int [0..<?n]"
  proof (rule nth_equalityI)
    show "length (map (\<lambda>a. shape_layer (dict_cells w' a)) (td_shapes td)) = length (map int [0..<?n])"
      using len by simp
  next
    fix i assume "i < length (map (\<lambda>a. shape_layer (dict_cells w' a)) (td_shapes td))"
    then have i: "i < ?n" using len by simp
    then have "td_shapes td ! i = dict_next w + i" using G by simp
    with i G len show "map (\<lambda>a. shape_layer (dict_cells w' a)) (td_shapes td) ! i = map int [0..<?n] ! i"
      by simp
  qed
  have "distinct (map int [0..<?n])" by (simp add: distinct_map)
  with lay len G show ?thesis by simp
qed

theorem scene_layers_contiguous_witness:
  "case generate_task_data default_config (initial_world (\<lambda>n. n)) of
     Inl e \<Rightarrow> False
   | Inr (td, w') \<Rightarrow>
       td_num_shapes td = 3 \<and>
       map (\<lambda>a. shape_layer (dict_cells w' a)) (td_shapes td) = [0, 1, 2]"
proof -
  have "case generate_task_data default_config (initial_world (\<lambda>n. n)) of
          Inl e \<Rightarrow> False | Inr (td, w') \<Rightarrow> td_num_shapes td = 3"
    by code_simp
  then obtain td w' where
    r: "generate_task_data default_config (initial_world (\<lambda>n. n)) = Inr (td, w')" and
    n: "td_num_shapes td = 3"
    by (auto split: sum.splits)
  from scene_layers_contiguous[OF r] n have
    "map (\<lambda>a. shape_layer (dict_cells w' a)) (td_shapes td) = map int [0..<3]" by simp
  also have "map int [0..<3] = [0, 1, 2]" by (simp add: upt_rec)
  finally show ?thesis using r n by simp
qed


lemma generate_many_lists:
  "generate_many k cfg w = Inr w' \<Longrightarrow>
     list_next w \<le> list_next w' \<and> (\<forall>b < list_next w. list_cells w' b = list_cells w b)"
proof (induction k arbitrary: w)
  case 0
  then show ?case by simp
next
  case (Suc k)
  from Suc.prems obtain td w1 where
    g: "generate_task_data cfg w = Inr (td, w1)" and m: "generate_many k cfg w1 = Inr w'"
    by (auto simp: ebind_eq_Inr)
  note G = generate_task_data_Inr[OF g] and IH = Suc.IH[OF m]
  from G IH show ?case by auto
qed

text \<open>Claim C10. Provided the palette of the configuration is an allocated list, any number
  of calls of scene generation leaves it with its original elements in their original
  order. One call shuffles a new list (at the next free address, different from the
  palette's) holding the same colours, and the colour of the \<open>i\<close>-th shape is the element
  of that shuffled copy at index \<open>i\<close> modulo its length.\<close>

theorem palette_never_mutated:
  assumes "shape_colors cfg < list_next w"
  shows "(\<forall>k w'. generate_many k cfg w = Inr w' \<longrightarrow>
            list_cells w' (shape_colors cfg) = list_cells w (shape_colors cfg)) \<and>
         (\<forall>td w'. generate_task_data cfg w = Inr (td, w') \<longrightarrow>
            list_next w \<noteq> shape_colors cfg \<and>
            list_cells w' (shape_colors cfg) = list_cells w (shape_colors cfg) \<and>
            mset (list_cells w' (list_next w)) = mset (list_cells w (shape_colors cfg)) \<and>
            (\<forall>i < length (td_shapes td).
               shape_color (dict_cells w' (td_shapes td ! i)) =
                 list_cells w' (list_next w) ! (i mod length (list_cells w' (list_next w)))))"
proof (intro conjI allI impI)
  fix k w' assume "generate_many k cfg w = Inr w'"
  from generate_many_lists[OF this] assms
  show "list_cells w' (shape_colors cfg) = list_cells w (shape_colors cfg)" by simp
next
  fix td w' assume g: "generate_task_data cfg w = Inr (td, w')"
  note G = generate_task_data_Inr[OF g]
  show "list_next w \<noteq> shape_colors cfg" using assms by simp
  then show "list_cells w' (shape_colors cfg) = list_cells w (shape_colors cfg)"
    using G by metis
  show "mset (list_cells w' (list_next w)) = mset (list_cells w (shape_colors cfg))"
    using G by simp
  fix i assume "i < length (td_shapes td)"
  then have i: "i < nat (td_num_shapes td)" using G by simp
  then have "td_shapes td ! i = dict_next w + i" using G by simp
  with i G show "shape_color (dict_cells w' (td_shapes td ! i)) =
                 list_cells w' (list_next w) ! (i mod length (list_cells w' (list_next w)))"
    by simp
qed

theorem palette_never_mutated_witness:
  "shape_colors default_config < list_next (initial_world (\<lambda>n. n)) \<and>
   (case generate_many 2 default_config (initial_world (\<lambda>n. n)) of
      Inl e \<Rightarrow> False
    | Inr w' \<Rightarrow> list_cells w' 0 = default_palette \<and> list_cells w' 1 \<noteq> default_palette)"
proof -
  have h: "shape_colors default_config < list_next (initial_world (\<lambda>n. n))"
    by (simp add: default_config_def initial_world_def)
  have "case generate_many 2 default_config (initial_world (\<lambda>n. n)) of
          Inl e \<Rightarrow> False | Inr w' \<Rightarrow> list_cells w' 1 \<noteq> default_palette"
    by code_simp
  then obtain w' where
    r: "generate_many 2 default_config (initial_world (\<lambda>n. n)) = Inr w'" and
    c: "list_cells w' 1 \<noteq> default_palette"
    by (auto split: sum.splits)
  from palette_never_mutated[OF h] r
  have "list_cells w' (shape_colors default_config) =
        list_cells (initial_world (\<lambda>n. n)) (shape_colors default_config)" by blast
  then have "list_cells w' 0 = default_palette"
    by (simp add: default_config_def initial_world_def)
  with h r c show ?thesis by simp
qed


lemma drawn_shapes_append: "drawn_shapes (xs @ ys) = drawn_shapes xs @ drawn_shapes ys"
  by (induction xs rule: drawn_shapes.induct) simp_all





lemma separated_body_eq:
  "separated_body cfg sf sp h i a img w = (img', w') \<Longrightarrow> a < dict_next w \<Longrightarrow>
     drawn_shapes (img_ops img') =
       drawn_shapes (img_ops img) @
         [(dict_cells w a)\<lparr>shape_x := margin + sp * (int i + 1), shape_y := h div 2\<rparr>] \<and>
     dict_next w' = Suc (dict_next w) \<and>
     (\<forall>b < dict_next w. dict_cells w' b = dict_cells w b)"
  by (auto simp: separated_body_def Let_def dict_copy_def dict_new_def dict_set_x_def
        dict_set_y_def draw_shape_def draw_on_def drawn_shapes_append)

lemma separated_loop_view:
  "separated_loop cfg sf sp h l img w = (img', w') \<Longrightarrow> \<forall>ia \<in> set l. snd ia < dict_next w \<Longrightarrow>
     drawn_shapes (img_ops img') =
       drawn_shapes (img_ops img) @
         map (\<lambda>ia. (dict_cells w (snd ia))
                \<lparr>shape_x := margin + sp * (int (fst ia) + 1), shape_y := h div 2\<rparr>) l \<and>
     dict_next w \<le> dict_next w' \<and>
     (\<forall>b < dict_next w. dict_cells w' b = dict_cells w b)"
proof (induction l arbitrary: img w)
  case Nil
  then show ?case by simp
next
  case (Cons ia rest)
  obtain img1 w1 where b: "separated_body cfg sf sp h (fst ia) (snd ia) img w = (img1, w1)"
    by (cases "separated_body cfg sf sp h (fst ia) (snd ia) img w")
  with Cons.prems have l: "separated_loop cfg sf sp h rest img1 w1 = (img', w')" by simp
  from Cons.prems have a: "snd ia < dict_next w" by simp
  note B = separated_body_eq[OF b a]
  have "\<forall>ia \<in> set rest. snd ia < dict_next w1" using Cons.prems(2) B by auto
  note IH = Cons.IH[OF l this]
  have "map (\<lambda>ia. (dict_cells w1 (snd ia))
                \<lparr>shape_x := margin + sp * (int (fst ia) + 1), shape_y := h div 2\<rparr>) rest =
        map (\<lambda>ia. (dict_cells w (snd ia))
                \<lparr>shape_x := margin + sp * (int (fst ia) + 1), shape_y := h div 2\<rparr>) rest"
    using Cons.prems(2) B by (intro map_cong) auto
  with IH B show ?case by auto
qed

lemma render_separated_view:
  assumes "\<forall>a \<in> set (td_shapes td). a < dict_next w" and "image_size cfg = (width, height)"
  shows "\<exists>img w'. render_separated env cfg td w = Inr (img, w') \<and>
           drawn_shapes (img_ops img) =
             map (\<lambda>ia. (dict_cells w (snd ia))
                    \<lparr>shape_x := margin + ((width - 2 * margin) div (int (length (td_shapes td)) + 1)) *
                                 (int (fst ia) + 1),
                     shape_y := height div 2\<rparr>)
               (enumerate 0 (sorted_by_layer_reverse w (td_shapes td))) \<and>
           dict_next w \<le> dict_next w' \<and>
           (\<forall>b < dict_next w. dict_cells w' b = dict_cells w b)"
proof -
  let ?shapes = "sorted_by_layer_reverse w (td_shapes td)"
  let ?sp = "(width - 2 * margin) div (int (length (td_shapes td)) + 1)"
  have len: "length ?shapes = length (td_shapes td)" by (simp add: sorted_by_layer_reverse_def)
  have set: "set ?shapes = set (td_shapes td)" by (simp add: sorted_by_layer_reverse_def)
  have fd: "floordiv (width - 2 * margin) (int (length ?shapes) + 1) = Inr ?sp"
    by (simp add: floordiv_def len)
  define img0 where "img0 = draw_on (draw_on (draw_on (draw_on
      (new_image ''RGBA'' (width, height) (background cfg))
      (Text (margin, 30) ''FRONT'' (RGB (label_color cfg)) (fst (load_fonts env))))
      (Text (width - margin - 40, 30) ''BACK'' (RGB (label_color cfg)) (fst (load_fonts env))))
      (Line [(margin + 50, 45), (width - margin - 50, 45)] (RGB (150, 150, 150)) 2))
      (Polygon [(width - margin - 50, 45), (width - margin - 60, 45 - 5),
                (width - margin - 60, 45 + 5)] (RGB (150, 150, 150)) None 1)"
  obtain img1 w1 where
    l: "separated_loop cfg (snd (load_fonts env)) ?sp height (enumerate 0 ?shapes) img0 w = (img1, w1)"
    by (cases "separated_loop cfg (snd (load_fonts env)) ?sp height (enumerate 0 ?shapes) img0 w")
  have "\<forall>ia \<in> set (enumerate 0 ?shapes). snd ia < dict_next w"
    using assms(1) set by (auto simp: in_set_enumerate_eq)
  note V = separated_loop_view[OF l this]
  have d0: "drawn_shapes (img_ops img0) = []"
    by (simp add: img0_def draw_on_def new_image_def)
  have r: "render_separated env cfg td w = Inr (convert img1 ''RGB'', w1)"
    using l fd assms(2) unfolding render_separated_def img0_def
    by (simp add: Let_def ebind_def case_prod_beta)
  show ?thesis using r V d0 by (simp add: convert_def)
qed


lemma map_snd_enumerate_fun: "map (\<lambda>x. g (snd x)) (enumerate n xs) = map g xs"
proof -
  have "map (\<lambda>x. g (snd x)) (enumerate n xs) = map g (map snd (enumerate n xs))"
    by (simp only: map_map comp_def)
  then show ?thesis by (simp only: map_snd_enumerate)
qed

lemma map_fst_enumerate_fun:
  "map (\<lambda>x. g (fst x)) (enumerate n xs) = map g [n..<n + length xs]"
proof -
  have "map (\<lambda>x. g (fst x)) (enumerate n xs) = map g (map fst (enumerate n xs))"
    by (simp only: map_map comp_def)
  then show ?thesis by (simp only: map_fst_enumerate)
qed

lemma separated_layers:
  "map shape_layer
     (map (\<lambda>ia. (dict_cells w (snd ia))\<lparr>shape_x := fx ia, shape_y := fy ia\<rparr>) (enumerate 0 xs)) =
   map (\<lambda>a. shape_layer (dict_cells w a)) xs"
  using map_snd_enumerate_fun[of "\<lambda>a. shape_layer (dict_cells w a)" 0 xs]
  by (simp add: comp_def)

lemma sorted_by_layer_reverse_descending:
  "sorted (rev (map (\<lambda>a. shape_layer (dict_cells w a)) (sorted_by_layer_reverse w refs)))"
  by (simp add: sorted_by_layer_reverse_def rev_map[symmetric])


lemma sorted_by_layer_reverse_generated:
  assumes "map (\<lambda>a. shape_layer (dict_cells w a)) refs = map int [0..<length refs]"
  shows "sorted_by_layer_reverse w refs = rev refs"
proof -
  let ?f = "\<lambda>a. shape_layer (dict_cells w a)"
  have d: "distinct (map ?f refs)" unfolding assms by (simp add: distinct_map)
  have s: "sorted (map ?f refs)" unfolding assms by (simp add: sorted_map strict_mono_def mono_def)
  from d have inj: "inj_on ?f (set (rev refs))" by (simp add: distinct_map)
  have "sort_key ?f (rev refs) = refs"
    by (rule sort_key_inj_key_eq[OF _ inj s]) simp
  then show ?thesis by (simp add: sorted_by_layer_reverse_def)
qed

text \<open>Claim C3. The separated render of a scene of \<open>n\<close> allocated shapes on a canvas of width
  \<open>w\<close> and height \<open>h\<close> never fails; with \<open>spacing = (w - 2 * 40) div (n + 1)\<close> (floor division),
  the \<open>i\<close>-th shape drawn, in front-to-back order, is a copy of the \<open>i\<close>-th shape by
  descending layer placed at \<open>x = 40 + spacing * (i + 1)\<close>, \<open>y = h div 2\<close>. For \<open>n = 3\<close> and
  \<open>w = 512\<close> the positions are 148, 256 and 364.\<close>

theorem separated_positions:
  assumes "\<forall>a \<in> set (td_shapes td). a < dict_next w"
    and "image_size cfg = (width, height)"
  shows "\<exists>img w'. render_separated env cfg td w = Inr (img, w') \<and>
           drawn_shapes (img_ops img) =
             map (\<lambda>ia. (dict_cells w (snd ia))
                    \<lparr>shape_x := 40 + ((width - 2 * 40) div (int (length (td_shapes td)) + 1)) *
                                 (int (fst ia) + 1),
                     shape_y := height div 2\<rparr>)
               (enumerate 0 (sorted_by_layer_reverse w (td_shapes td))) \<and>
           sorted (rev (map shape_layer (drawn_shapes (img_ops img)))) \<and>
           (width = 512 \<and> length (td_shapes td) = 3 \<longrightarrow>
              map shape_x (drawn_shapes (img_ops img)) = [148, 256, 364])"
proof -
  from render_separated_view[OF assms, of env] obtain img w' where
    r: "render_separated env cfg td w = Inr (img, w')" and
    d: "drawn_shapes (img_ops img) =
             map (\<lambda>ia. (dict_cells w (snd ia))
                    \<lparr>shape_x := 40 + ((width - 2 * 40) div (int (length (td_shapes td)) + 1)) *
                                 (int (fst ia) + 1),
                     shape_y := height div 2\<rparr>)
               (enumerate 0 (sorted_by_layer_reverse w (td_shapes td)))"
    unfolding margin_def by blast
  have lay: "map shape_layer (drawn_shapes (img_ops img)) =
        map (\<lambda>a. shape_layer (dict_cells w a)) (sorted_by_layer_reverse w (td_shapes td))"
    unfolding d by (rule separated_layers)
  have desc: "sorted (rev (map shape_layer (drawn_shapes (img_ops img))))"
    unfolding lay by (rule sorted_by_layer_reverse_descending)
  have xs: "map shape_x (drawn_shapes (img_ops img)) = [148, 256, 364]"
    if "width = 512" "length (td_shapes td) = 3"
  proof -
    have len: "length (sorted_by_layer_reverse w (td_shapes td)) = 3"
      using that by (simp add: sorted_by_layer_reverse_def)
    have "map shape_x (drawn_shapes (img_ops img)) =
          map (\<lambda>ia. 148 + 108 * int (fst ia))
            (enumerate 0 (sorted_by_layer_reverse w (td_shapes td)))"
      unfolding d using that by (simp add: comp_def)
    also have "\<dots> = map (\<lambda>i. 148 + 108 * int i) [0..<3]"
      using len map_fst_enumerate_fun[of "\<lambda>i. 148 + 108 * int i" 0
               "sorted_by_layer_reverse w (td_shapes td)"] by simp
    also have "\<dots> = [148, 256, 364]" by (simp add: upt_rec)
    finally show ?thesis .
  qed
  show ?thesis
  proof (intro exI conjI impI)
    show "render_separated env cfg td w = Inr (img, w')" by (rule r)
    show "drawn_shapes (img_ops img) =
             map (\<lambda>ia. (dict_cells w (snd ia))
                    \<lparr>shape_x := 40 + ((width - 2 * 40) div (int (length (td_shapes td)) + 1)) *
                                 (int (fst ia) + 1),
                     shape_y := height div 2\<rparr>)
               (enumerate 0 (sorted_by_layer_reverse w (td_shapes td)))" by (rule d)
    show "sorted (rev (map shape_layer (drawn_shapes (img_ops img))))" by (rule desc)
    show "map shape_x (drawn_shapes (img_ops img)) = [148, 256, 364]"
      if "width = 512 \<and> length (td_shapes td) = 3" using xs that by simp
  qed
qed

theorem separated_positions_witness:
  "list_all (\<lambda>a. a < dict_next demo_world) (td_shapes demo_scene) \<and>
   image_size default_config = (512, 512) \<and>
   (\<exists>img w'. render_separated test_platform default_config demo_scene demo_world = Inr (img, w') \<and>
      map shape_x (drawn_shapes (img_ops img)) = [148, 256, 364])"
proof -
  have h1: "\<forall>a \<in> set (td_shapes demo_scene). a < dict_next demo_world"
    by (simp add: demo_scene_def demo_world_def)
  have h2: "image_size default_config = (512, 512)" by (simp add: default_config_def)
  have n: "length (td_shapes demo_scene) = 3" by (simp add: demo_scene_def)
  from separated_positions[OF h1 h2, of test_platform] n h1 h2 show ?thesis
    by (auto simp: list_all_iff)
qed


text \<open>Claim C7. For a scene of a single allocated shape, the spacing of the separated
  render is computed by a division by 2, which succeeds, and the render draws the copy of
  the shape at \<open>x = width div 2\<close>, \<open>y = height div 2\<close>, whatever the width of the canvas.\<close>

theorem single_shape_centered:
  assumes "td_shapes td = [a]" and "a < dict_next w" and "image_size cfg = (width, height)"
  shows "floordiv (width - 2 * margin) (int (length (td_shapes td)) + 1) =
           Inr ((width - 2 * margin) div 2) \<and>
         (\<exists>img w'. render_separated env cfg td w = Inr (img, w') \<and>
            drawn_shapes (img_ops img) =
              [(dict_cells w a)\<lparr>shape_x := width div 2, shape_y := height div 2\<rparr>])"
proof -
  have alloc: "\<forall>b \<in> set (td_shapes td). b < dict_next w" using assms by simp
  have s: "sorted_by_layer_reverse w (td_shapes td) = [a]"
    using assms by (simp add: sorted_by_layer_reverse_def)
  have x: "margin + (width - 2 * margin) div 2 = width div 2" by (simp add: margin_def)
  from render_separated_view[OF alloc assms(3), of env] obtain img w' where
    r: "render_separated env cfg td w = Inr (img, w')" and
    d: "drawn_shapes (img_ops img) =
             map (\<lambda>ia. (dict_cells w (snd ia))
                    \<lparr>shape_x := margin + ((width - 2 * margin) div (int (length (td_shapes td)) + 1)) *
                                 (int (fst ia) + 1),
                     shape_y := height div 2\<rparr>)
               (enumerate 0 (sorted_by_layer_reverse w (td_shapes td)))"
    by blast
  have "drawn_shapes (img_ops img) =
          [(dict_cells w a)\<lparr>shape_x := width div 2, shape_y := height div 2\<rparr>]"
    unfolding d s using assms(1) x by simp
  with r show ?thesis using assms(1) by (simp add: floordiv_def)
qed

theorem single_shape_centered_witness:
  "td_shapes (demo_scene\<lparr>td_shapes := [2]\<rparr>) = [2] \<and> 2 < dict_next demo_world \<and>
   image_size (default_config\<lparr>image_size := (81, 33)\<rparr>) = (81, 33) \<and>
   (\<exists>img w'. render_separated test_platform (default_config\<lparr>image_size := (81, 33)\<rparr>)
               (demo_scene\<lparr>td_shapes := [2]\<rparr>) demo_world = Inr (img, w') \<and>
      map shape_x (drawn_shapes (img_ops img)) = [40] \<and>
      map shape_y (drawn_shapes (img_ops img)) = [16])"
proof -
  have h1: "td_shapes (demo_scene\<lparr>td_shapes := [2]\<rparr>) = [2]" by simp
  have h2: "2 < dict_next demo_world" by (simp add: demo_world_def)
  have h3: "image_size (default_config\<lparr>image_size := (81, 33)\<rparr>) = (81, 33)" by simp
  from single_shape_centered[OF h1 h2 h3, of test_platform] h1 h2 h3 show ?thesis by auto
qed

text \<open>Claim C6, as amended. For a scene of \<open>n \<ge> 1\<close> allocated shapes whose layers are
  \<open>0, \<dots>, n - 1\<close> in generation order, on a canvas wide enough for a positive spacing
  (\<open>n = 1\<close>, or \<open>width \<ge> 80 + n + 1\<close>), the separated render draws the shapes by descending
  layer; the shape of layer \<open>n - 1\<close> is strictly to the left of every other shape and the
  shape of layer 0 strictly to the right of every other shape.\<close>

theorem front_leftmost_back_rightmost:
  assumes alloc: "\<forall>a \<in> set (td_shapes td). a < dict_next w"
    and layers: "map (\<lambda>a. shape_layer (dict_cells w a)) (td_shapes td) =
                   map int [0..<length (td_shapes td)]"
    and size: "image_size cfg = (width, height)"
    and n: "1 \<le> length (td_shapes td)"
    and wide: "length (td_shapes td) = 1 \<or> 80 + int (length (td_shapes td)) + 1 \<le> width"
  shows "\<exists>img w'. render_separated env cfg td w = Inr (img, w') \<and>
           map shape_layer (drawn_shapes (img_ops img)) =
             rev (map int [0..<length (td_shapes td)]) \<and>
           (\<forall>i < length (td_shapes td). \<forall>j < length (td_shapes td).
              shape_layer (drawn_shapes (img_ops img) ! i) = int (length (td_shapes td)) - 1 \<and>
              j \<noteq> i \<longrightarrow>
              shape_x (drawn_shapes (img_ops img) ! i) < shape_x (drawn_shapes (img_ops img) ! j)) \<and>
           (\<forall>i < length (td_shapes td). \<forall>j < length (td_shapes td).
              shape_layer (drawn_shapes (img_ops img) ! i) = 0 \<and> j \<noteq> i \<longrightarrow>
              shape_x (drawn_shapes (img_ops img) ! j) < shape_x (drawn_shapes (img_ops img) ! i))"
proof -
  let ?n = "length (td_shapes td)"
  let ?sp = "(width - 2 * margin) div (int ?n + 1)"
  from render_separated_view[OF alloc size, of env] obtain img w' where
    r: "render_separated env cfg td w = Inr (img, w')" and
    d: "drawn_shapes (img_ops img) =
             map (\<lambda>ia. (dict_cells w (snd ia))
                    \<lparr>shape_x := margin + ?sp * (int (fst ia) + 1), shape_y := height div 2\<rparr>)
               (enumerate 0 (sorted_by_layer_reverse w (td_shapes td)))"
    by blast
  let ?ds = "drawn_shapes (img_ops img)"
  have srt: "sorted_by_layer_reverse w (td_shapes td) = rev (td_shapes td)"
    by (rule sorted_by_layer_reverse_generated[OF layers])
  have lay: "map shape_layer ?ds = rev (map int [0..<?n])"
    unfolding d separated_layers srt by (simp only: rev_map[symmetric] layers)
  have len: "length ?ds = ?n" unfolding d srt by simp
  have x: "shape_x (?ds ! i) = margin + ?sp * (int i + 1)" if "i < ?n" for i
    unfolding d srt using that by (simp add: nth_enumerate_eq)
  have l: "shape_layer (?ds ! i) = int ?n - 1 - int i" if "i < ?n" for i
  proof -
    have "shape_layer (?ds ! i) = map shape_layer ?ds ! i" using that len by simp
    also have "\<dots> = rev (map int [0..<?n]) ! i" by (simp only: lay)
    also have "\<dots> = int ?n - 1 - int i" using that by (simp add: rev_nth)
    finally show ?thesis .
  qed
  have sp: "0 < ?sp" if "?n \<noteq> 1"
    using wide that by (simp add: pos_imp_zdiv_pos_iff margin_def)
  have lt: "shape_x (?ds ! i) < shape_x (?ds ! j)" if "i < j" "j < ?n" for i j
  proof -
    from that n have "?n \<noteq> 1" by simp
    from sp[OF this] that(1) have "?sp * (int i + 1) < ?sp * (int j + 1)"
      by (intro mult_strict_left_mono) simp_all
    with that x[of i] x[of j] show ?thesis by simp
  qed
  show ?thesis
  proof (intro exI conjI allI impI)
    show "render_separated env cfg td w = Inr (img, w')" by (rule r)
    show "map shape_layer ?ds = rev (map int [0..<?n])" by (rule lay)
  next
    fix i j assume i: "i < ?n" and j: "j < ?n"
      and h: "shape_layer (?ds ! i) = int ?n - 1 \<and> j \<noteq> i"
    from h l[OF i] have "i = 0" by linarith
    with h have "i < j" by linarith
    from lt[OF this j] show "shape_x (?ds ! i) < shape_x (?ds ! j)" .
  next
    fix i j assume i: "i < ?n" and j: "j < ?n"
      and h: "shape_layer (?ds ! i) = 0 \<and> j \<noteq> i"
    from h l[OF i] i have "i = ?n - 1" by linarith
    with h j have "j < i" by linarith
    from lt[OF this i] show "shape_x (?ds ! j) < shape_x (?ds ! i)" .
  qed
qed

theorem front_leftmost_back_rightmost_witness:
  "list_all (\<lambda>a. a < dict_next demo_world) (td_shapes demo_scene) \<and>
   map (\<lambda>a. shape_layer (dict_cells demo_world a)) (td_shapes demo_scene) =
     map int [0..<length (td_shapes demo_scene)] \<and>
   image_size default_config = (512, 512) \<and>
   1 \<le> length (td_shapes demo_scene) \<and>
   80 + int (length (td_shapes demo_scene)) + 1 \<le> 512 \<and>
   (\<exists>img w'. render_separated test_platform default_config demo_scene demo_world =
        Inr (img, w') \<and>
      map shape_layer (drawn_shapes (img_ops img)) = [2, 1, 0] \<and>
      shape_x (drawn_shapes (img_ops img) ! 0) < shape_x (drawn_shapes (img_ops img) ! 1) \<and>
      shape_x (drawn_shapes (img_ops img) ! 1) < shape_x (drawn_shapes (img_ops img) ! 2))"
proof -
  have h1: "\<forall>a \<in> set (td_shapes demo_scene). a < dict_next demo_world"
    by (simp add: demo_scene_def demo_world_def)
  have n3: "length (td_shapes demo_scene) = 3" by (simp add: demo_scene_def)
  have u3: "[0..<3] = [0, 1, 2]" by (simp add: upt_rec)
  have h2: "map (\<lambda>a. shape_layer (dict_cells demo_world a)) (td_shapes demo_scene) =
     map int [0..<length (td_shapes demo_scene)]"
    unfolding n3 u3 by (simp add: demo_scene_def demo_world_def demo_shapes_def)
  have h3: "image_size default_config = (512, 512)" by (simp add: default_config_def)
  have h4: "1 \<le> length (td_shapes demo_scene)" using n3 by simp
  have h5: "length (td_shapes demo_scene) = 1 \<or>
            80 + int (length (td_shapes demo_scene)) + 1 \<le> 512" using n3 by simp
  from front_leftmost_back_rightmost[OF h1 h2 h3 h4 h5, of test_platform]
  obtain img w' where
    r: "render_separated test_platform default_config demo_scene demo_world = Inr (img, w')" and
    l: "map shape_layer (drawn_shapes (img_ops img)) =
          rev (map int [0..<length (td_shapes demo_scene)])" and
    f: "\<forall>i < length (td_shapes demo_scene). \<forall>j < length (td_shapes demo_scene).
          shape_layer (drawn_shapes (img_ops img) ! i) = int (length (td_shapes demo_scene)) - 1 \<and>
          j \<noteq> i \<longrightarrow>
          shape_x (drawn_shapes (img_ops img) ! i) < shape_x (drawn_shapes (img_ops img) ! j)" and
    b: "\<forall>i < length (td_shapes demo_scene). \<forall>j < length (td_shapes demo_scene).
          shape_layer (drawn_shapes (img_ops img) ! i) = 0 \<and> j \<noteq> i \<longrightarrow>
          shape_x (drawn_shapes (img_ops img) ! j) < shape_x (drawn_shapes (img_ops img) ! i)"
    by blast
  have l': "map shape_layer (drawn_shapes (img_ops img)) = [2, 1, 0]"
    using l unfolding n3 u3 by simp
  then have len: "length (drawn_shapes (img_ops img)) = 3"
    by (metis length_map length_Cons list.size(3) numeral_3_eq_3)
  have l0: "shape_layer (drawn_shapes (img_ops img) ! 0) = 2"
    using l' len by (metis nth_map nth_Cons_0 zero_less_numeral)
  have l2: "shape_layer (drawn_shapes (img_ops img) ! 2) = 0"
  proof -
    have "map shape_layer (drawn_shapes (img_ops img)) ! 2 = 0" unfolding l' by simp
    then show ?thesis using len by simp
  qed
  have "shape_x (drawn_shapes (img_ops img) ! 0) < shape_x (drawn_shapes (img_ops img) ! 1)"
    using f l0 unfolding n3 by (simp add: numeral_3_eq_3)
  moreover
  have "shape_x (drawn_shapes (img_ops img) ! 1) < shape_x (drawn_shapes (img_ops img) ! 2)"
    using b l2 unfolding n3 by (simp add: numeral_3_eq_3)
  ultimately show ?thesis using h1 h2 h3 h4 n3 r l' by (simp add: list_all_iff)
qed

text \<open>Without the condition on the width the strict order fails: on a canvas 82 pixels
  wide, a generated scene of two shapes has spacing \<open>2 div 3 = 0\<close>, and the front shape
  (layer 1) and the back shape (layer 0) are both drawn at \<open>x = 40\<close>.\<close>

theorem front_leftmost_back_rightmost_counterexample:
  "separated_layout test_platform narrow_config (initial_world zero_entropy) =
     Inr [(1, 40, 41), (0, 40, 41)]"
  by code_simp


lemma frame_body_view:
  assumes "a < dict_next w" and "i < length fp"
  shows "\<exists>img' w'. frame_body env p fp i a img w = Inr (img', w') \<and>
           drawn_shapes (img_ops img') =
             drawn_shapes (img_ops img) @ [moved_shape env p (dict_cells w a) (fp ! i)] \<and>
           dict_next w' = Suc (dict_next w) \<and>
           (\<forall>b < dict_next w. dict_cells w' b = dict_cells w b)"
  using assms
  by (cases "fp ! i")
     (auto simp: frame_body_def getitem_def ebind_def Let_def dict_copy_def dict_new_def
        dict_set_x_def dict_set_y_def draw_shape_def drawn_shapes_append moved_shape_def)

lemma frame_loop_view:
  assumes "\<forall>ia \<in> set l. snd ia < dict_next w \<and> fst ia < length fp"
  shows "\<exists>img' w'. frame_loop env p fp l img w = Inr (img', w') \<and>
           drawn_shapes (img_ops img') =
             drawn_shapes (img_ops img) @
               map (\<lambda>ia. moved_shape env p (dict_cells w (snd ia)) (fp ! fst ia)) l \<and>
           dict_next w \<le> dict_next w' \<and>
           (\<forall>b < dict_next w. dict_cells w' b = dict_cells w b)"
  using assms
proof (induction l arbitrary: img w)
  case Nil
  then show ?case by simp
next
  case (Cons ia rest)
  from Cons.prems have a: "snd ia < dict_next w" and i: "fst ia < length fp" by simp_all
  from frame_body_view[OF a i, of env p img] obtain img1 w1 where
    b: "frame_body env p fp (fst ia) (snd ia) img w = Inr (img1, w1)" and
    d1: "drawn_shapes (img_ops img1) =
           drawn_shapes (img_ops img) @ [moved_shape env p (dict_cells w (snd ia)) (fp ! fst ia)]" and
    n1: "dict_next w1 = Suc (dict_next w)" and
    p1: "\<forall>b < dict_next w. dict_cells w1 b = dict_cells w b"
    by blast
  have "\<forall>ia \<in> set rest. snd ia < dict_next w1 \<and> fst ia < length fp"
    using Cons.prems n1 by auto
  from Cons.IH[OF this, of img1] obtain img' w' where
    l: "frame_loop env p fp rest img1 w1 = Inr (img', w')" and
    d: "drawn_shapes (img_ops img') =
          drawn_shapes (img_ops img1) @
            map (\<lambda>ia. moved_shape env p (dict_cells w1 (snd ia)) (fp ! fst ia)) rest" and
    n: "dict_next w1 \<le> dict_next w'" and
    pr: "\<forall>b < dict_next w1. dict_cells w' b = dict_cells w1 b"
    by blast
  have m: "map (\<lambda>ia. moved_shape env p (dict_cells w1 (snd ia)) (fp ! fst ia)) rest =
           map (\<lambda>ia. moved_shape env p (dict_cells w (snd ia)) (fp ! fst ia)) rest"
    using Cons.prems p1 by (intro map_cong) auto
  have "frame_loop env p fp (ia # rest) img w = Inr (img', w')"
    using b l by (simp add: ebind_def)
  moreover have "drawn_shapes (img_ops img') =
             drawn_shapes (img_ops img) @
               map (\<lambda>ia. moved_shape env p (dict_cells w (snd ia)) (fp ! fst ia)) (ia # rest)"
    using d d1 m by simp
  moreover have "dict_next w \<le> dict_next w'" using n n1 by simp
  moreover have "\<forall>b < dict_next w. dict_cells w' b = dict_cells w b"
    using pr p1 n1 by auto
  ultimately show ?case by blast
qed

lemma animate_body_view:
  assumes "\<forall>a \<in> set shapes. a < dict_next w" and "length fp = length shapes"
  shows "\<exists>img w'. animate_body env cfg fp shapes k w = Inr (img, w') \<and>
           drawn_shapes (img_ops img) =
             map (\<lambda>ia. moved_shape env (ease env k) (dict_cells w (snd ia)) (fp ! fst ia))
               (enumerate 0 shapes) \<and>
           dict_next w \<le> dict_next w' \<and>
           (\<forall>b < dict_next w. dict_cells w' b = dict_cells w b)"
proof -
  obtain width height where wh: "image_size cfg = (width, height)" by (cases "image_size cfg")
  have "\<forall>ia \<in> set (enumerate 0 shapes). snd ia < dict_next w \<and> fst ia < length fp"
    using assms by (auto simp: in_set_enumerate_eq)
  from frame_loop_view[OF this, of env "ease env k"
        "new_image ''RGBA'' (width, height) (background cfg)"]
  obtain img' w' where
    l: "frame_loop env (ease env k) fp (enumerate 0 shapes)
          (new_image ''RGBA'' (width, height) (background cfg)) w = Inr (img', w')" and
    d: "drawn_shapes (img_ops img') =
          drawn_shapes (img_ops (new_image ''RGBA'' (width, height) (background cfg))) @
            map (\<lambda>ia. moved_shape env (ease env k) (dict_cells w (snd ia)) (fp ! fst ia))
              (enumerate 0 shapes)" and
    n: "dict_next w \<le> dict_next w'" and
    pr: "\<forall>b < dict_next w. dict_cells w' b = dict_cells w b"
    by blast
  have "animate_body env cfg fp shapes k w = Inr (convert img' ''RGB'', w')"
    using l wh by (simp add: animate_body_def Let_def ebind_def)
  with d n pr show ?thesis by (simp add: convert_def new_image_def)
qed

lemma animate_view:
  assumes "\<forall>a \<in> set shapes. a < dict_next w" and "length fp = length shapes"
  shows "\<exists>frames' w'. animate env cfg fp shapes ks frames w = Inr (frames', w') \<and>
           length frames' = length frames + length ks \<and>
           take (length frames) frames' = frames \<and>
           (\<forall>j < length ks.
              drawn_shapes (img_ops (frames' ! (length frames + j))) =
                map (\<lambda>ia. moved_shape env (ease env (ks ! j)) (dict_cells w (snd ia)) (fp ! fst ia))
                  (enumerate 0 shapes)) \<and>
           dict_next w \<le> dict_next w' \<and>
           (\<forall>b < dict_next w. dict_cells w' b = dict_cells w b)"
  using assms(1)
proof (induction ks arbitrary: frames w)
  case Nil
  then show ?case by simp
next
  case (Cons k rest)
  from animate_body_view[OF Cons.prems assms(2), of env cfg k] obtain img w1 where
    b: "animate_body env cfg fp shapes k w = Inr (img, w1)" and
    d1: "drawn_shapes (img_ops img) =
           map (\<lambda>ia. moved_shape env (ease env k) (dict_cells w (snd ia)) (fp ! fst ia))
             (enumerate 0 shapes)" and
    n1: "dict_next w \<le> dict_next w1" and
    p1: "\<forall>b < dict_next w. dict_cells w1 b = dict_cells w b"
    by blast
  have al: "\<forall>a \<in> set shapes. a < dict_next w1" using Cons.prems n1 by auto
  from Cons.IH[OF al, of "frames @ [img]"] obtain frames' w' where
    r: "animate env cfg fp shapes rest (frames @ [img]) w1 = Inr (frames', w')" and
    len: "length frames' = length (frames @ [img]) + length rest" and
    tk: "take (length (frames @ [img])) frames' = frames @ [img]" and
    dr: "\<forall>j < length rest.
           drawn_shapes (img_ops (frames' ! (length (frames @ [img]) + j))) =
             map (\<lambda>ia. moved_shape env (ease env (rest ! j)) (dict_cells w1 (snd ia)) (fp ! fst ia))
               (enumerate 0 shapes)" and
    n: "dict_next w1 \<le> dict_next w'" and
    pr: "\<forall>b < dict_next w1. dict_cells w' b = dict_cells w1 b"
    by blast
  have cells: "dict_cells w1 (snd ia) = dict_cells w (snd ia)" if "ia \<in> set (enumerate 0 shapes)" for ia
  proof -
    from that have "snd ia \<in> set shapes"
      by (metis in_set_enumerate_eq nth_mem diff_zero add_0_right)
    with Cons.prems p1 show ?thesis by blast
  qed
  have m: "map (\<lambda>ia. moved_shape env q (dict_cells w1 (snd ia)) (fp ! fst ia)) (enumerate 0 shapes) =
           map (\<lambda>ia. moved_shape env q (dict_cells w (snd ia)) (fp ! fst ia)) (enumerate 0 shapes)" for q
    using cells by (intro map_cong) auto
  have tk2: "take (length frames) frames' = frames"
  proof -
    have "take (length frames) frames' = take (length frames) (take (length (frames @ [img])) frames')"
      by simp
    then show ?thesis by (simp only: tk) simp
  qed
  have at: "frames' ! length frames = img"
  proof -
    have "frames' ! length frames = take (length (frames @ [img])) frames' ! length frames"
      by simp
    then show ?thesis by (simp only: tk) simp
  qed
  have "animate env cfg fp shapes (k # rest) frames w = Inr (frames', w')"
    using b r by (simp add: ebind_def)
  moreover have "length frames' = length frames + length (k # rest)" using len by simp
  moreover note tk2
  moreover have "\<forall>j < length (k # rest).
              drawn_shapes (img_ops (frames' ! (length frames + j))) =
                map (\<lambda>ia. moved_shape env (ease env ((k # rest) ! j)) (dict_cells w (snd ia)) (fp ! fst ia))
                  (enumerate 0 shapes)"
  proof (intro allI impI)
    fix j assume j: "j < length (k # rest)"
    show "drawn_shapes (img_ops (frames' ! (length frames + j))) =
                map (\<lambda>ia. moved_shape env (ease env ((k # rest) ! j)) (dict_cells w (snd ia)) (fp ! fst ia))
                  (enumerate 0 shapes)"
    proof (cases j)
      case 0
      then show ?thesis using at d1 by simp
    next
      case (Suc j')
      with j have "j' < length rest" by simp
      with dr have "drawn_shapes (img_ops (frames' ! (length (frames @ [img]) + j'))) =
             map (\<lambda>ia. moved_shape env (ease env (rest ! j')) (dict_cells w1 (snd ia)) (fp ! fst ia))
               (enumerate 0 shapes)" by blast
      then show ?thesis using Suc m by simp
    qed
  qed
  moreover have "dict_next w \<le> dict_next w'" using n n1 by simp
  moreover have "\<forall>b < dict_next w. dict_cells w' b = dict_cells w b" using pr p1 n1 by auto
  ultimately show ?case by blast
qed


lemma video_frames_view:
  assumes alloc: "\<forall>a \<in> set (td_shapes td). a < dict_next w"
    and size: "image_size cfg = (width, height)"
  shows "\<exists>frames w'. video_frames env cfg first final td w = Inr (frames, w') \<and>
           length frames = 40 \<and>
           take 5 frames = replicate 5 first \<and>
           drop 30 frames = replicate 10 final \<and>
           (\<forall>k < 25.
              drawn_shapes (img_ops (frames ! (5 + k))) =
                map (\<lambda>ia. moved_shape env (ease env k) (dict_cells w (snd ia))
                            (layout_targets width height (length (td_shapes td)) ! fst ia))
                  (enumerate 0 (sorted_by_layer_reverse w (td_shapes td)))) \<and>
           dict_next w \<le> dict_next w' \<and>
           (\<forall>b < dict_next w. dict_cells w' b = dict_cells w b)"
proof -
  let ?shapes = "sorted_by_layer_reverse w (td_shapes td)"
  let ?n = "length (td_shapes td)"
  let ?fp = "layout_targets width height ?n"
  have len: "length ?shapes = ?n" by (simp add: sorted_by_layer_reverse_def)
  have al: "\<forall>a \<in> set ?shapes. a < dict_next w"
    using alloc by (simp add: sorted_by_layer_reverse_def)
  have lfp: "length ?fp = length ?shapes" by (simp add: layout_targets_def len)
  from animate_view[OF al lfp, of env cfg "[0..<animation_frames]" "replicate hold_frames first"]
  obtain frames1 w' where
    a: "animate env cfg ?fp ?shapes [0..<animation_frames] (replicate hold_frames first) w =
          Inr (frames1, w')" and
    l1: "length frames1 = length (replicate hold_frames first) + length [0..<animation_frames]" and
    tk: "take (length (replicate hold_frames first)) frames1 = replicate hold_frames first" and
    dr: "\<forall>j < length [0..<animation_frames].
           drawn_shapes (img_ops (frames1 ! (length (replicate hold_frames first) + j))) =
             map (\<lambda>ia. moved_shape env (ease env ([0..<animation_frames] ! j))
                         (dict_cells w (snd ia)) (?fp ! fst ia))
               (enumerate 0 ?shapes)" and
    n: "dict_next w \<le> dict_next w'" and
    pr: "\<forall>b < dict_next w. dict_cells w' b = dict_cells w b"
    by blast
  let ?frames = "frames1 @ replicate (hold_frames * 2) final"
  have l30: "length frames1 = 30" using l1 by (simp add: hold_frames_def animation_frames_def)
  have tk5: "take 5 frames1 = replicate 5 first" using tk by (simp add: hold_frames_def)
  have r: "video_frames env cfg first final td w = Inr (?frames, w')"
    using a size unfolding video_frames_def layout_targets_def
    by (simp add: Let_def ebind_def floordiv_def len copy_image_def)
  have "length ?frames = 40" using l30 by (simp add: hold_frames_def)
  moreover have "take 5 ?frames = replicate 5 first" using l30 tk5 by simp
  moreover have "drop 30 ?frames = replicate 10 final" using l30 by (simp add: hold_frames_def)
  moreover have "\<forall>k < 25.
              drawn_shapes (img_ops (?frames ! (5 + k))) =
                map (\<lambda>ia. moved_shape env (ease env k) (dict_cells w (snd ia)) (?fp ! fst ia))
                  (enumerate 0 ?shapes)"
  proof (intro allI impI)
    fix k :: nat assume k: "k < 25"
    then have "?frames ! (5 + k) = frames1 ! (5 + k)" using l30 by (simp add: nth_append)
    moreover from k dr have "drawn_shapes (img_ops (frames1 ! (5 + k))) =
             map (\<lambda>ia. moved_shape env (ease env k) (dict_cells w (snd ia)) (?fp ! fst ia))
               (enumerate 0 ?shapes)"
      by (simp add: hold_frames_def animation_frames_def)
    ultimately show "drawn_shapes (img_ops (?frames ! (5 + k))) =
                map (\<lambda>ia. moved_shape env (ease env k) (dict_cells w (snd ia)) (?fp ! fst ia))
                  (enumerate 0 ?shapes)" by simp
  qed
  ultimately show ?thesis using r n pr by blast
qed


subsection \<open>The animation\<close>

text \<open>Claim C4. With \<open>H1 = 5\<close>, \<open>A = 25\<close> and \<open>H2 = 2 * H1 = 10\<close>, the frame sequence built for a
  scene of allocated shapes from its overlapping and its separated render, as
  \<^verbatim>\<open>generate_task_pair\<close> passes them, has exactly \<open>H1 + A + H2 = 40\<close> frames; each of the first
  five is the overlapping render and each of the last ten is the separated render (the same
  image, hence the same pixels).\<close>

theorem video_frame_sequence:
  assumes "\<forall>a \<in> set (td_shapes td). a < dict_next w"
  shows "hold_frames = 5 \<and> animation_frames = 25 \<and> hold_frames * 2 = 10 \<and>
         (\<exists>final w1 frames w2.
            render_final_state env cfg td w = Inr (final, w1) \<and>
            render_separated env cfg td w = Inr (final, w1) \<and>
            video_frames env cfg (render_initial_state cfg td w) final td w1 = Inr (frames, w2) \<and>
            length frames = hold_frames + animation_frames + hold_frames * 2 \<and>
            length frames = 40 \<and>
            (\<forall>i < 5. frames ! i = render_overlapping cfg td w) \<and>
            (\<forall>i < 10. frames ! (30 + i) = final))"
proof -
  obtain width height where wh: "image_size cfg = (width, height)" by (cases "image_size cfg")
  from render_separated_view[OF assms wh, of env] obtain final w1 where
    r: "render_separated env cfg td w = Inr (final, w1)" and
    n: "dict_next w \<le> dict_next w1"
    by blast
  have al: "\<forall>a \<in> set (td_shapes td). a < dict_next w1" using assms n by auto
  from video_frames_view[OF al wh, of env "render_initial_state cfg td w" final]
  obtain frames w2 where
    v: "video_frames env cfg (render_initial_state cfg td w) final td w1 = Inr (frames, w2)" and
    len: "length frames = 40" and
    tk: "take 5 frames = replicate 5 (render_initial_state cfg td w)" and
    dp: "drop 30 frames = replicate 10 final"
    by blast
  have first: "frames ! i = render_overlapping cfg td w" if "i < 5" for i
  proof -
    have "frames ! i = take 5 frames ! i" using that by simp
    also have "\<dots> = render_initial_state cfg td w" unfolding tk using that by simp
    finally show ?thesis by (simp add: render_initial_state_def)
  qed
  have last: "frames ! (30 + i) = final" if "i < 10" for i
  proof -
    have "frames ! (30 + i) = drop 30 frames ! i" using len that by simp
    also have "\<dots> = final" unfolding dp using that by simp
    finally show ?thesis .
  qed
  have "\<exists>final w1 frames w2.
            render_final_state env cfg td w = Inr (final, w1) \<and>
            render_separated env cfg td w = Inr (final, w1) \<and>
            video_frames env cfg (render_initial_state cfg td w) final td w1 = Inr (frames, w2) \<and>
            length frames = hold_frames + animation_frames + hold_frames * 2 \<and>
            length frames = 40 \<and>
            (\<forall>i < 5. frames ! i = render_overlapping cfg td w) \<and>
            (\<forall>i < 10. frames ! (30 + i) = final)"
  proof (intro exI conjI allI impI)
    show "render_final_state env cfg td w = Inr (final, w1)"
      using r by (simp add: render_final_state_def)
    show "render_separated env cfg td w = Inr (final, w1)" by (rule r)
    show "video_frames env cfg (render_initial_state cfg td w) final td w1 = Inr (frames, w2)"
      by (rule v)
    show "length frames = hold_frames + animation_frames + hold_frames * 2"
      using len by (simp add: hold_frames_def animation_frames_def)
    show "length frames = 40" by (rule len)
    show "frames ! i = render_overlapping cfg td w" if "i < 5" for i using first that .
    show "frames ! (30 + i) = final" if "i < 10" for i using last that .
  qed
  then show ?thesis by (simp add: hold_frames_def animation_frames_def)
qed

theorem video_frame_sequence_witness:
  "list_all (\<lambda>a. a < dict_next demo_world) (td_shapes demo_scene) \<and>
   (\<exists>final w1 frames w2.
      render_separated test_platform default_config demo_scene demo_world = Inr (final, w1) \<and>
      video_frames test_platform default_config
        (render_initial_state default_config demo_scene demo_world) final demo_scene w1 =
        Inr (frames, w2) \<and>
      length frames = 40 \<and>
      frames ! 0 = render_overlapping default_config demo_scene demo_world \<and>
      frames ! 39 = final)"
proof -
  have h: "\<forall>a \<in> set (td_shapes demo_scene). a < dict_next demo_world"
    by (simp add: demo_scene_def demo_world_def)
  from video_frame_sequence[OF h, of test_platform default_config]
  obtain final w1 frames w2 where
    r: "render_separated test_platform default_config demo_scene demo_world = Inr (final, w1)" and
    v: "video_frames test_platform default_config
          (render_initial_state default_config demo_scene demo_world) final demo_scene w1 =
          Inr (frames, w2)" and
    len: "length frames = 40" and
    f: "\<forall>i < 5. frames ! i = render_overlapping default_config demo_scene demo_world" and
    l: "\<forall>i < 10. frames ! (30 + i) = final"
    by blast
  have "(0::nat) < 5" by simp
  with f have f0: "frames ! 0 = render_overlapping default_config demo_scene demo_world"
    by blast
  have "(9::nat) < 10" by simp
  with l have "frames ! (30 + 9) = final" by blast
  then have l9: "frames ! 39 = final" by simp
  show ?thesis using h r v len f0 l9 by (auto simp: list_all_iff)
qed

subsection \<open>The scene is not modified\<close>

text \<open>Claim C8. After a scene has been generated, running the overlapping render, the
  separated render and the synthesis of the video frames, in the order of
  \<^verbatim>\<open>generate_task_pair\<close>, succeeds and leaves every dictionary that existed before the
  renders unchanged; in particular each shape of the scene keeps its position, size, type,
  colour and layer. The renders write only to the copies they allocate.\<close>

theorem scene_immutable:
  assumes "generate_task_data cfg w = Inr (td, w1)"
  shows "\<exists>final w2 frames w3.
           render_separated env cfg td w1 = Inr (final, w2) \<and>
           video_frames env cfg (render_overlapping cfg td w1) final td w2 = Inr (frames, w3) \<and>
           (\<forall>a \<in> set (td_shapes td).
              a < dict_next w1 \<and>
              dict_cells w2 a = dict_cells w1 a \<and> dict_cells w3 a = dict_cells w1 a) \<and>
           (\<forall>b < dict_next w1. dict_cells w2 b = dict_cells w1 b \<and> dict_cells w3 b = dict_cells w1 b)"
proof -
  note G = generate_task_data_Inr[OF assms]
  have al: "\<forall>a \<in> set (td_shapes td). a < dict_next w1" using G by auto
  obtain width height where wh: "image_size cfg = (width, height)" by (cases "image_size cfg")
  from render_separated_view[OF al wh, of env] obtain final w2 where
    r: "render_separated env cfg td w1 = Inr (final, w2)" and
    n2: "dict_next w1 \<le> dict_next w2" and
    p2: "\<forall>b < dict_next w1. dict_cells w2 b = dict_cells w1 b"
    by blast
  have al2: "\<forall>a \<in> set (td_shapes td). a < dict_next w2" using al n2 by auto
  from video_frames_view[OF al2 wh, of env "render_overlapping cfg td w1" final]
  obtain frames w3 where
    v: "video_frames env cfg (render_overlapping cfg td w1) final td w2 = Inr (frames, w3)" and
    p3: "\<forall>b < dict_next w2. dict_cells w3 b = dict_cells w2 b"
    by blast
  have p: "\<forall>b < dict_next w1. dict_cells w2 b = dict_cells w1 b \<and> dict_cells w3 b = dict_cells w1 b"
    using p2 p3 n2 by auto
  with al have "\<forall>a \<in> set (td_shapes td).
              a < dict_next w1 \<and>
              dict_cells w2 a = dict_cells w1 a \<and> dict_cells w3 a = dict_cells w1 a" by blast
  with r v p show ?thesis by blast
qed

theorem scene_immutable_witness:
  "case generate_task_data default_config (initial_world zero_entropy) of
     Inl e \<Rightarrow> False
   | Inr (td, w1) \<Rightarrow>
       length (td_shapes td) = 3 \<and>
       (\<exists>final w2 frames w3.
          render_separated test_platform default_config td w1 = Inr (final, w2) \<and>
          video_frames test_platform default_config (render_overlapping default_config td w1)
            final td w2 = Inr (frames, w3) \<and>
          map (dict_cells w2) (td_shapes td) = map (dict_cells w1) (td_shapes td) \<and>
          map (dict_cells w3) (td_shapes td) = map (dict_cells w1) (td_shapes td))"
proof -
  have "case generate_task_data default_config (initial_world zero_entropy) of
          Inl e \<Rightarrow> False | Inr (td, w1) \<Rightarrow> length (td_shapes td) = 3"
    by code_simp
  then obtain td w1 where
    g: "generate_task_data default_config (initial_world zero_entropy) = Inr (td, w1)" and
    n: "length (td_shapes td) = 3"
    by (auto split: sum.splits)
  from scene_immutable[OF g, of test_platform] obtain final w2 frames w3 where
    r: "render_separated test_platform default_config td w1 = Inr (final, w2)" and
    v: "video_frames test_platform default_config (render_overlapping default_config td w1)
          final td w2 = Inr (frames, w3)" and
    p: "\<forall>a \<in> set (td_shapes td).
          a < dict_next w1 \<and>
          dict_cells w2 a = dict_cells w1 a \<and> dict_cells w3 a = dict_cells w1 a"
    by blast
  have "map (dict_cells w2) (td_shapes td) = map (dict_cells w1) (td_shapes td)"
       "map (dict_cells w3) (td_shapes td) = map (dict_cells w1) (td_shapes td)"
    using p by (auto intro!: map_cong)
  with g n r v show ?thesis by auto
qed


subsection \<open>Drawing order\<close>


lemma composite_snoc:
  "composite P bg (ops @ [DrawShape s ox oy]) p =
     paste_pixel P (layer_pixel P (shape_calls s ox oy) p) (composite P bg ops p)"
  by (simp add: composite_def apply_op_def)


subsection \<open>Eased interpolation\<close>

lemma faithful_0: "faithful_rounding r \<Longrightarrow> r 0 = 0"
proof -
  assume "faithful_rounding r"
  then have "r (of_int 0) = of_int 0" unfolding faithful_rounding_def by (metis abs_zero zero_le_numeral zero_le_power)
  then show ?thesis by simp
qed

lemma faithful_1: "faithful_rounding r \<Longrightarrow> r 1 = 1"
proof -
  assume "faithful_rounding r"
  moreover have "\<bar>1::int\<bar> \<le> 2 ^ 53" by simp
  ultimately have "r (of_int 1) = of_int 1" unfolding faithful_rounding_def by blast
  then show ?thesis by simp
qed

lemma faithful_int: "faithful_rounding r \<Longrightarrow> \<bar>i\<bar> \<le> 2 ^ 53 \<Longrightarrow> r (of_int i) = of_int i"
  unfolding faithful_rounding_def by blast

lemma faithful_mono: "faithful_rounding r \<Longrightarrow> x \<le> y \<Longrightarrow> r x \<le> r y"
  unfolding faithful_rounding_def by (auto dest: monoD)

lemma ease_mono:
  assumes fr: "faithful_rounding (rnd env)" and jk: "j \<le> k" and k: "k < animation_frames"
  shows "ease env j \<le> ease env k"
proof -
  let ?r = "rnd env"
  let ?p = "\<lambda>i::nat. ?r (real i / 24)"
  let ?a = "\<lambda>i. ?r (1 - ?p i)"
  have A: "real (animation_frames - 1) = 24" by (simp add: animation_frames_def)
  have pjk: "?p j \<le> ?p k" using jk by (intro faithful_mono[OF fr] divide_right_mono) simp_all
  have "real k / 24 \<le> 1" using k by (simp add: animation_frames_def)
  then have "?p k \<le> ?r 1" by (rule faithful_mono[OF fr])
  then have pk1: "?p k \<le> 1" by (simp add: faithful_1[OF fr])
  have "?r 0 \<le> ?a k" using pk1 by (intro faithful_mono[OF fr]) simp
  then have ak0: "0 \<le> ?a k" by (simp add: faithful_0[OF fr])
  have akj: "?a k \<le> ?a j" using pjk by (intro faithful_mono[OF fr]) simp
  have "(?a k)\<^sup>2 \<le> (?a j)\<^sup>2" using akj ak0 by (rule power_mono)
  then have "?r ((?a k)\<^sup>2) \<le> ?r ((?a j)\<^sup>2)" by (rule faithful_mono[OF fr])
  then have "?r (1 - ?r ((?a j)\<^sup>2)) \<le> ?r (1 - ?r ((?a k)\<^sup>2))"
    by (intro faithful_mono[OF fr]) simp
  then show ?thesis unfolding ease_def Let_def A .
qed

lemma ease_first: "faithful_rounding (rnd env) \<Longrightarrow> ease env 0 = 0"
  by (simp add: ease_def Let_def faithful_0 faithful_1)

lemma ease_last: "faithful_rounding (rnd env) \<Longrightarrow> ease env (animation_frames - 1) = 1"
  by (simp add: ease_def Let_def animation_frames_def faithful_0 faithful_1)

lemma py_int_of_int: "py_int (of_int i) = i"
  by (simp add: py_int_def)

lemma interpolate_start:
  assumes "faithful_rounding (rnd env)" and "\<bar>s\<bar> \<le> 2 ^ 53"
  shows "py_int (interpolate env s e 0) = s"
  using assms
  by (simp add: interpolate_def to_float_def faithful_0 faithful_int py_int_of_int)

lemma interpolate_end:
  assumes fr: "faithful_rounding (rnd env)"
    and "\<bar>s\<bar> \<le> 2 ^ 52" and "\<bar>e\<bar> \<le> 2 ^ 52"
  shows "py_int (interpolate env s e 1) = e"
proof -
  have s: "\<bar>s\<bar> \<le> 2 ^ 53" and e: "\<bar>e\<bar> \<le> 2 ^ 53" and d: "\<bar>e - s\<bar> \<le> 2 ^ 53"
    using assms(2,3) by simp_all
  have a: "to_float env s = of_int s" by (simp only: to_float_def faithful_int[OF fr s])
  have b: "to_float env (e - s) = of_int (e - s)"
    by (simp only: to_float_def faithful_int[OF fr d])
  have "interpolate env s e 1 = rnd env (of_int s + of_int (e - s))"
    by (simp only: interpolate_def a b mult_1_right faithful_int[OF fr d])
  also have "of_int s + of_int (e - s) = (of_int e :: real)" by simp
  finally have "interpolate env s e 1 = of_int e" by (simp only: faithful_int[OF fr e])
  then show ?thesis by (simp only: py_int_of_int)
qed

lemma moved_shape_start:
  assumes "faithful_rounding (rnd env)"
    and "\<bar>shape_x s\<bar> \<le> 2 ^ 52" and "\<bar>shape_y s\<bar> \<le> 2 ^ 52"
  shows "moved_shape env 0 s t = s"
proof -
  have "\<bar>shape_x s\<bar> \<le> 2 ^ 53" "\<bar>shape_y s\<bar> \<le> 2 ^ 53" using assms(2,3) by simp_all
  then show ?thesis
    by (simp add: moved_shape_def interpolate_start[OF assms(1)])
qed

lemma moved_shape_end:
  assumes "faithful_rounding (rnd env)"
    and "\<bar>shape_x s\<bar> \<le> 2 ^ 52" and "\<bar>shape_y s\<bar> \<le> 2 ^ 52"
    and "\<bar>fst t\<bar> \<le> 2 ^ 52" and "\<bar>snd t\<bar> \<le> 2 ^ 52"
  shows "shape_x (moved_shape env 1 s t) = fst t \<and> shape_y (moved_shape env 1 s t) = snd t"
  using assms by (simp add: moved_shape_def interpolate_end)


subsection \<open>Task pairs without a video\<close>

lemma randint_total:
  "a \<le> b \<Longrightarrow> \<exists>v w'. randint a b w = Inr (v, w')"
  by (simp add: randint_def randbelow_def)

lemma choice_total:
  "seq \<noteq> [] \<Longrightarrow> \<exists>v w'. choice seq w = Inr (v, w')"
  by (simp add: choice_def randbelow_def)

lemma gen_shape_total:
  assumes "min_shape_size cfg \<le> max_shape_size cfg" and "list_cells w ac \<noteq> []"
  shows "\<exists>a w'. gen_shape cfg cx cy ac i w = Inr (a, w')"
proof -
  from randint_total[of "- spread" spread w] obtain dx w1 where
    1: "randint (- spread) spread w = Inr (dx, w1)" by (auto simp: spread_def)
  from randint_total[of "- spread" spread w1] obtain dy w2 where
    2: "randint (- spread) spread w1 = Inr (dy, w2)" by (auto simp: spread_def)
  from randint_total[OF assms(1), of w2] obtain sz w3 where
    3: "randint (min_shape_size cfg) (max_shape_size cfg) w2 = Inr (sz, w3)" by blast
  from choice_total[of shape_types w3] obtain ty w4 where
    4: "choice shape_types w3 = Inr (ty, w4)" by (auto simp: shape_types_def)
  from randint_Inr[OF 1] randint_Inr[OF 2] randint_Inr[OF 3] choice_Inr[OF 4]
  have "list_cells w4 = list_cells w" by simp
  with assms(2) have ne: "list_cells w4 ac \<noteq> []" by simp
  obtain a w' where d: "dict_new
                  \<lparr>shape_x = cx + dx, shape_y = cy + dy, shape_size = sz,
                   shape_type = ty,
                   shape_color = list_cells w4 ac ! (i mod length (list_cells w4 ac)),
                   shape_layer = int i\<rparr> w4 = (a, w')"
    by (cases "dict_new
                  \<lparr>shape_x = cx + dx, shape_y = cy + dy, shape_size = sz,
                   shape_type = ty,
                   shape_color = list_cells w4 ac ! (i mod length (list_cells w4 ac)),
                   shape_layer = int i\<rparr> w4")
  have "gen_shape cfg cx cy ac i w = Inr (a, w')"
    unfolding gen_shape_def using 1 2 3 4 ne d by (simp add: ebind_def Let_def)
  then show ?thesis by blast
qed

lemma gen_loop_total:
  assumes "min_shape_size cfg \<le> max_shape_size cfg" and "list_cells w ac \<noteq> []"
  shows "\<exists>shapes' w'. gen_loop cfg cx cy ac is shapes w = Inr (shapes', w')"
  using assms(2)
proof (induction "is" arbitrary: shapes w)
  case Nil
  then show ?case by simp
next
  case (Cons i rest)
  from gen_shape_total[OF assms(1) Cons.prems, of cx cy i] obtain a w1 where
    g: "gen_shape cfg cx cy ac i w = Inr (a, w1)" by blast
  from gen_shape_Inr[OF g] Cons.prems have "list_cells w1 ac \<noteq> []" by simp
  from Cons.IH[OF this, of "shapes @ [a]"] obtain shapes' w' where
    "gen_loop cfg cx cy ac rest (shapes @ [a]) w1 = Inr (shapes', w')" by blast
  with g show ?case by (simp add: ebind_def)
qed

lemma generate_task_data_total:
  assumes "min_shapes cfg \<le> max_shapes cfg"
    and "min_shape_size cfg \<le> max_shape_size cfg"
    and "list_cells w (shape_colors cfg) \<noteq> []"
  shows "\<exists>td w'. generate_task_data cfg w = Inr (td, w')"
proof -
  obtain width height where wh: "image_size cfg = (width, height)" by (cases "image_size cfg")
  from randint_total[OF assms(1), of w] obtain n w1 where
    1: "randint (min_shapes cfg) (max_shapes cfg) w = Inr (n, w1)" by blast
  define ac where "ac = list_next w1"
  define w2 where "w2 = snd (list_copy (shape_colors cfg) w1)"
  define w3 where "w3 = shuffle ac w2"
  have lc: "list_copy (shape_colors cfg) w1 = (ac, w2)"
    by (simp add: ac_def w2_def list_copy_def)
  have "list_cells w2 ac = list_cells w (shape_colors cfg)"
    using randint_Inr[OF 1] by (simp add: w2_def ac_def list_copy_def)
  with shuffle_store[of ac w2] have "mset (list_cells w3 ac) = mset (list_cells w (shape_colors cfg))"
    by (simp add: w3_def)
  with assms(3) have ne: "list_cells w3 ac \<noteq> []" by (metis mset_zero_iff)
  from gen_loop_total[OF assms(2) ne, of "width div 2" "height div 2" "[0..<nat n]" "[]"]
  obtain shapes w4 where
    l: "gen_loop cfg (width div 2) (height div 2) ac [0..<nat n] [] w3 = Inr (shapes, w4)"
    by blast
  have "generate_task_data cfg w =
          Inr (\<lparr>td_shapes = shapes, td_num_shapes = n, td_type = ''default''\<rparr>, w4)"
    unfolding generate_task_data_def using 1 wh lc l
    by (simp add: ebind_def Let_def w3_def)
  then show ?thesis by blast
qed

lemma get_prompt_total: "\<exists>p w'. get_prompt t w = Inr (p, w')"
  unfolding get_prompt_def Let_def
  by (rule choice_total) (simp add: default_prompts_def)



subsection \<open>The images in full\<close>












lemma eased_interpolation_core:
  assumes fr: "faithful_rounding (rnd env)"
    and alloc: "\<forall>a \<in> set (td_shapes td). a < dict_next w"
    and size: "image_size cfg = (width, height)"
    and sb: "\<forall>a \<in> set (td_shapes td).
               \<bar>shape_x (dict_cells w a)\<bar> \<le> 2 ^ 52 \<and> \<bar>shape_y (dict_cells w a)\<bar> \<le> 2 ^ 52"
    and tb: "\<forall>t \<in> set (layout_targets width height (length (td_shapes td))).
               \<bar>fst t\<bar> \<le> 2 ^ 52 \<and> \<bar>snd t\<bar> \<le> 2 ^ 52"
  shows "(\<forall>j k. j \<le> k \<and> k < animation_frames \<longrightarrow> ease env j \<le> ease env k) \<and>
         ease env 0 = 0 \<and> ease env (animation_frames - 1) = 1 \<and>
         (\<forall>k. ease (env\<lparr>rnd := \<lambda>r. r\<rparr>) k = 1 - (1 - real k / real (animation_frames - 1))\<^sup>2) \<and>
         (\<exists>frames w'.
            video_frames env cfg first final td w = Inr (frames, w') \<and>
            (\<forall>k < animation_frames.
               drawn_shapes (img_ops (frames ! (hold_frames + k))) =
                 map (\<lambda>ia. moved_shape env (ease env k) (dict_cells w (snd ia))
                             (layout_targets width height (length (td_shapes td)) ! fst ia))
                   (enumerate 0 (sorted_by_layer_reverse w (td_shapes td)))) \<and>
            drawn_shapes (img_ops (frames ! hold_frames)) =
              map (dict_cells w) (sorted_by_layer_reverse w (td_shapes td)) \<and>
            map (\<lambda>s. (shape_x s, shape_y s))
              (drawn_shapes (img_ops (frames ! (hold_frames + (animation_frames - 1))))) =
              layout_targets width height (length (td_shapes td)))"
proof -
  let ?xs = "sorted_by_layer_reverse w (td_shapes td)"
  let ?fp = "layout_targets width height (length (td_shapes td))"
  have len: "length ?xs = length (td_shapes td)" by (simp add: sorted_by_layer_reverse_def)
  have set: "set ?xs = set (td_shapes td)" by (simp add: sorted_by_layer_reverse_def)
  have lfp: "length ?fp = length ?xs" by (simp add: layout_targets_def len)
  from video_frames_view[OF alloc size, of env first final] obtain frames w' where
    v: "video_frames env cfg first final td w = Inr (frames, w')" and
    d: "\<forall>k < 25.
          drawn_shapes (img_ops (frames ! (5 + k))) =
            map (\<lambda>ia. moved_shape env (ease env k) (dict_cells w (snd ia)) (?fp ! fst ia))
              (enumerate 0 ?xs)"
    by blast
  have d0: "drawn_shapes (img_ops (frames ! hold_frames)) =
              map (\<lambda>ia. moved_shape env (ease env 0) (dict_cells w (snd ia)) (?fp ! fst ia))
                (enumerate 0 ?xs)"
  proof -
    have "(0::nat) < 25" by simp
    with d have "drawn_shapes (img_ops (frames ! (5 + 0))) =
              map (\<lambda>ia. moved_shape env (ease env 0) (dict_cells w (snd ia)) (?fp ! fst ia))
                (enumerate 0 ?xs)" by blast
    then show ?thesis by (simp add: hold_frames_def)
  qed
  have d24: "drawn_shapes (img_ops (frames ! (hold_frames + (animation_frames - 1)))) =
              map (\<lambda>ia. moved_shape env (ease env (animation_frames - 1))
                          (dict_cells w (snd ia)) (?fp ! fst ia))
                (enumerate 0 ?xs)"
  proof -
    have "(24::nat) < 25" by simp
    with d have "drawn_shapes (img_ops (frames ! (5 + 24))) =
              map (\<lambda>ia. moved_shape env (ease env 24) (dict_cells w (snd ia)) (?fp ! fst ia))
                (enumerate 0 ?xs)" by blast
    then show ?thesis by (simp add: hold_frames_def animation_frames_def)
  qed
  have mem: "snd ia \<in> set (td_shapes td) \<and> fst ia < length ?fp \<and> ?fp ! fst ia \<in> set ?fp"
    if "ia \<in> set (enumerate 0 ?xs)" for ia
  proof -
    from that have i: "fst ia < length ?xs" and s: "?xs ! fst ia = snd ia"
      by (simp_all add: in_set_enumerate_eq)
    from i s have "snd ia \<in> set ?xs" by (metis nth_mem)
    with i lfp set show ?thesis by simp
  qed
  have start: "drawn_shapes (img_ops (frames ! hold_frames)) = map (dict_cells w) ?xs"
  proof -
    have "map (\<lambda>ia. moved_shape env (ease env 0) (dict_cells w (snd ia)) (?fp ! fst ia))
            (enumerate 0 ?xs) =
          map (\<lambda>ia. dict_cells w (snd ia)) (enumerate 0 ?xs)"
    proof (rule map_cong[OF refl])
      fix ia assume "ia \<in> set (enumerate 0 ?xs)"
      from mem[OF this] sb have
        "\<bar>shape_x (dict_cells w (snd ia))\<bar> \<le> 2 ^ 52" "\<bar>shape_y (dict_cells w (snd ia))\<bar> \<le> 2 ^ 52"
        by blast+
      from moved_shape_start[OF fr this]
      show "moved_shape env (ease env 0) (dict_cells w (snd ia)) (?fp ! fst ia) =
            dict_cells w (snd ia)"
        by (simp add: ease_first[OF fr])
    qed
    also have "\<dots> = map (dict_cells w) ?xs"
      by (rule map_snd_enumerate_fun)
    finally show ?thesis unfolding d0 .
  qed
  have finish: "map (\<lambda>s. (shape_x s, shape_y s))
              (drawn_shapes (img_ops (frames ! (hold_frames + (animation_frames - 1))))) = ?fp"
  proof -
    have "map (\<lambda>s. (shape_x s, shape_y s))
            (map (\<lambda>ia. moved_shape env (ease env (animation_frames - 1))
                          (dict_cells w (snd ia)) (?fp ! fst ia)) (enumerate 0 ?xs)) =
          map (\<lambda>ia. ?fp ! fst ia) (enumerate 0 ?xs)"
      unfolding map_map
    proof (rule map_cong[OF refl])
      fix ia assume "ia \<in> set (enumerate 0 ?xs)"
      from mem[OF this] sb tb have
        "\<bar>shape_x (dict_cells w (snd ia))\<bar> \<le> 2 ^ 52" "\<bar>shape_y (dict_cells w (snd ia))\<bar> \<le> 2 ^ 52"
        "\<bar>fst (?fp ! fst ia)\<bar> \<le> 2 ^ 52" "\<bar>snd (?fp ! fst ia)\<bar> \<le> 2 ^ 52"
        by blast+
      from moved_shape_end[OF fr this]
      show "((\<lambda>s. (shape_x s, shape_y s)) \<circ>
             (\<lambda>ia. moved_shape env (ease env (animation_frames - 1))
                     (dict_cells w (snd ia)) (?fp ! fst ia))) ia = ?fp ! fst ia"
        unfolding comp_def ease_last[OF fr] by (simp add: prod_eq_iff)
    qed
    also have "\<dots> = map (\<lambda>i. ?fp ! i) [0..<0 + length ?xs]"
      by (rule map_fst_enumerate_fun)
    also have "\<dots> = ?fp" using map_nth[of ?fp] by (simp only: lfp[symmetric] add_0)
    finally show ?thesis unfolding d24 .
  qed
  have exact: "ease (env\<lparr>rnd := \<lambda>r. r\<rparr>) k = 1 - (1 - real k / real (animation_frames - 1))\<^sup>2" for k
    by (simp add: ease_def Let_def)
  have frames_k: "\<forall>k < animation_frames.
               drawn_shapes (img_ops (frames ! (hold_frames + k))) =
                 map (\<lambda>ia. moved_shape env (ease env k) (dict_cells w (snd ia)) (?fp ! fst ia))
                   (enumerate 0 ?xs)"
    using d by (simp add: hold_frames_def animation_frames_def)
  show ?thesis
  proof (intro conjI allI impI)
    fix j k assume "j \<le> k \<and> k < animation_frames"
    then show "ease env j \<le> ease env k" using ease_mono[OF fr] by blast
  next
    show "\<exists>frames w'.
            video_frames env cfg first final td w = Inr (frames, w') \<and>
            (\<forall>k < animation_frames.
               drawn_shapes (img_ops (frames ! (hold_frames + k))) =
                 map (\<lambda>ia. moved_shape env (ease env k) (dict_cells w (snd ia)) (?fp ! fst ia))
                   (enumerate 0 ?xs)) \<and>
            drawn_shapes (img_ops (frames ! hold_frames)) = map (dict_cells w) ?xs \<and>
            map (\<lambda>s. (shape_x s, shape_y s))
              (drawn_shapes (img_ops (frames ! (hold_frames + (animation_frames - 1))))) = ?fp"
      using v frames_k start finish by blast
  next
    show "ease env 0 = 0" by (rule ease_first[OF fr])
    show "ease env (animation_frames - 1) = 1" by (rule ease_last[OF fr])
    show "ease (env\<lparr>rnd := \<lambda>r. r\<rparr>) k = 1 - (1 - real k / real (animation_frames - 1))\<^sup>2"
      for k by (rule exact)
  qed
qed


text \<open>Claim C5. Floating-point operations are exact operations followed by a rounding
  \<open>rnd\<close> that is monotone and exact on integers up to \<open>2\<^sup>5\<^sup>3\<close>. The eased progress of
  transition frame \<open>k\<close> is \<open>progress k\<close>, the rounded evaluation of \<open>1 - (1 - k / 24)\<^sup>2\<close> (the
  formula itself under exact arithmetic); it is non-decreasing in \<open>k\<close>, equal to 0 at \<open>k = 0\<close>
  and to 1 at \<open>k = A - 1 = 24\<close>. In transition frame \<open>k\<close> the \<open>i\<close>-th shape drawn is the copy of the
  \<open>i\<close>-th shape by descending layer whose coordinates are \<open>lerp k start end\<close>, the rounded
  evaluation of \<open>start + (end - start) * progress k\<close> truncated towards zero, from its scene
  position to its layout target \<open>(40 + spacing * (i + 1), height div 2)\<close>, with the one
  progress value of the frame for all shapes; under exact arithmetic this is the truncation
  of \<open>start + (end - start) * (1 - (1 - k / 24)\<^sup>2)\<close>. For coordinates of magnitude at most
  \<open>2\<^sup>5\<^sup>2\<close>, the first transition frame draws the shapes as they are in the scene and the last
  one draws them at their layout targets.\<close>

theorem eased_interpolation:
  fixes env :: platform and width height :: int and td :: task_data
    and trunc :: "real \<Rightarrow> int" and progress :: "nat \<Rightarrow> real"
    and lerp :: "nat \<Rightarrow> int \<Rightarrow> int \<Rightarrow> int" and target :: "nat \<Rightarrow> int \<times> int"
  defines "trunc \<equiv> \<lambda>r. if 0 \<le> r then \<lfloor>r\<rfloor> else \<lceil>r\<rceil>"
    and "progress \<equiv> \<lambda>k. rnd env (1 - rnd env ((rnd env (1 - rnd env (real k / 24)))\<^sup>2))"
    and "lerp \<equiv> \<lambda>k a b.
           trunc (rnd env (rnd env (of_int a) + rnd env (rnd env (of_int (b - a)) * progress k)))"
    and "target \<equiv> \<lambda>i.
           (40 + ((width - 2 * 40) div (int (length (td_shapes td)) + 1)) * (int i + 1),
            height div 2)"
  assumes fr: "faithful_rounding (rnd env)"
    and alloc: "\<forall>a \<in> set (td_shapes td). a < dict_next w"
    and size: "image_size cfg = (width, height)"
    and sb: "\<forall>a \<in> set (td_shapes td).
               \<bar>shape_x (dict_cells w a)\<bar> \<le> 2 ^ 52 \<and> \<bar>shape_y (dict_cells w a)\<bar> \<le> 2 ^ 52"
    and tb: "\<forall>t \<in> set (layout_targets width height (length (td_shapes td))).
               \<bar>fst t\<bar> \<le> 2 ^ 52 \<and> \<bar>snd t\<bar> \<le> 2 ^ 52"
  shows "(\<forall>j k. j \<le> k \<and> k < animation_frames \<longrightarrow> ease env j \<le> ease env k) \<and>
         ease env 0 = 0 \<and> ease env (animation_frames - 1) = 1 \<and>
         (\<forall>k. ease (env\<lparr>rnd := \<lambda>r. r\<rparr>) k = 1 - (1 - real k / real (animation_frames - 1))\<^sup>2) \<and>
         (\<forall>k. ease env k = progress k) \<and>
         layout_targets width height (length (td_shapes td)) =
           map target [0..<length (td_shapes td)] \<and>
         (\<exists>frames w'.
            video_frames env cfg first final td w = Inr (frames, w') \<and>
            (\<forall>k < animation_frames.
               drawn_shapes (img_ops (frames ! (hold_frames + k))) =
                 map (\<lambda>ia. moved_shape env (ease env k) (dict_cells w (snd ia))
                             (layout_targets width height (length (td_shapes td)) ! fst ia))
                   (enumerate 0 (sorted_by_layer_reverse w (td_shapes td)))) \<and>
            drawn_shapes (img_ops (frames ! hold_frames)) =
              map (dict_cells w) (sorted_by_layer_reverse w (td_shapes td)) \<and>
            map (\<lambda>s. (shape_x s, shape_y s))
              (drawn_shapes (img_ops (frames ! (hold_frames + (animation_frames - 1))))) =
              layout_targets width height (length (td_shapes td)) \<and>
            (\<forall>k < 25.
               drawn_shapes (img_ops (frames ! (5 + k))) =
                 map (\<lambda>ia. (dict_cells w (snd ia))
                        \<lparr>shape_x := lerp k (shape_x (dict_cells w (snd ia))) (fst (target (fst ia))),
                         shape_y := lerp k (shape_y (dict_cells w (snd ia))) (snd (target (fst ia)))\<rparr>)
                   (enumerate 0 (sorted_by_layer_reverse w (td_shapes td)))) \<and>
            (rnd env = (\<lambda>r. r) \<longrightarrow>
               (\<forall>k < 25.
                  drawn_shapes (img_ops (frames ! (5 + k))) =
                    map (\<lambda>ia. (dict_cells w (snd ia))
                           \<lparr>shape_x :=
                              trunc (of_int (shape_x (dict_cells w (snd ia))) +
                                     of_int (fst (target (fst ia)) - shape_x (dict_cells w (snd ia))) *
                                       (1 - (1 - real k / 24)\<^sup>2)),
                            shape_y :=
                              trunc (of_int (shape_y (dict_cells w (snd ia))) +
                                     of_int (snd (target (fst ia)) - shape_y (dict_cells w (snd ia))) *
                                       (1 - (1 - real k / 24)\<^sup>2))\<rparr>)
                      (enumerate 0 (sorted_by_layer_reverse w (td_shapes td))))))"
proof -
  let ?xs = "sorted_by_layer_reverse w (td_shapes td)"
  let ?n = "length (td_shapes td)"
  have len: "length ?xs = ?n" by (simp add: sorted_by_layer_reverse_def)
  have pr: "ease env k = progress k" for k
    unfolding progress_def by (simp add: ease_def Let_def animation_frames_def)
  have tg: "layout_targets width height ?n = map target [0..<?n]"
    unfolding target_def by (simp add: layout_targets_def margin_def)
  have tn: "layout_targets width height ?n ! i = target i" if "i < ?n" for i
    unfolding tg using that by simp
  from eased_interpolation_core[OF fr alloc size sb tb, where first = first and final = final]
  obtain frames w' where
    mono: "\<forall>j k. j \<le> k \<and> k < animation_frames \<longrightarrow> ease env j \<le> ease env k" and
    e0: "ease env 0 = 0" and e1: "ease env (animation_frames - 1) = 1" and
    ex: "\<forall>k. ease (env\<lparr>rnd := \<lambda>r. r\<rparr>) k = 1 - (1 - real k / real (animation_frames - 1))\<^sup>2" and
    v: "video_frames env cfg first final td w = Inr (frames, w')" and
    d: "\<forall>k < animation_frames.
               drawn_shapes (img_ops (frames ! (hold_frames + k))) =
                 map (\<lambda>ia. moved_shape env (ease env k) (dict_cells w (snd ia))
                             (layout_targets width height ?n ! fst ia))
                   (enumerate 0 ?xs)" and
    s: "drawn_shapes (img_ops (frames ! hold_frames)) = map (dict_cells w) ?xs" and
    f: "map (\<lambda>s. (shape_x s, shape_y s))
              (drawn_shapes (img_ops (frames ! (hold_frames + (animation_frames - 1))))) =
              layout_targets width height ?n"
    by blast
  have explicit: "drawn_shapes (img_ops (frames ! (5 + k))) =
                 map (\<lambda>ia. (dict_cells w (snd ia))
                        \<lparr>shape_x := lerp k (shape_x (dict_cells w (snd ia))) (fst (target (fst ia))),
                         shape_y := lerp k (shape_y (dict_cells w (snd ia))) (snd (target (fst ia)))\<rparr>)
                   (enumerate 0 ?xs)" if k: "k < 25" for k
  proof -
    from d k have "drawn_shapes (img_ops (frames ! (5 + k))) =
                 map (\<lambda>ia. moved_shape env (ease env k) (dict_cells w (snd ia))
                             (layout_targets width height ?n ! fst ia))
                   (enumerate 0 ?xs)"
      by (simp add: hold_frames_def animation_frames_def)
    also have "\<dots> = map (\<lambda>ia. (dict_cells w (snd ia))
                        \<lparr>shape_x := lerp k (shape_x (dict_cells w (snd ia))) (fst (target (fst ia))),
                         shape_y := lerp k (shape_y (dict_cells w (snd ia))) (snd (target (fst ia)))\<rparr>)
                   (enumerate 0 ?xs)"
    proof (rule map_cong[OF refl])
      fix ia assume "ia \<in> set (enumerate 0 ?xs)"
      then have "fst ia < ?n" using len by (simp add: in_set_enumerate_eq)
      from tn[OF this]
      show "moved_shape env (ease env k) (dict_cells w (snd ia))
              (layout_targets width height ?n ! fst ia) =
            (dict_cells w (snd ia))
              \<lparr>shape_x := lerp k (shape_x (dict_cells w (snd ia))) (fst (target (fst ia))),
               shape_y := lerp k (shape_y (dict_cells w (snd ia))) (snd (target (fst ia)))\<rparr>"
        unfolding lerp_def trunc_def pr[symmetric]
        by (simp add: moved_shape_def interpolate_def to_float_def py_int_def)
    qed
    finally show ?thesis .
  qed
  have exact: "drawn_shapes (img_ops (frames ! (5 + k))) =
                    map (\<lambda>ia. (dict_cells w (snd ia))
                           \<lparr>shape_x :=
                              trunc (of_int (shape_x (dict_cells w (snd ia))) +
                                     of_int (fst (target (fst ia)) - shape_x (dict_cells w (snd ia))) *
                                       (1 - (1 - real k / 24)\<^sup>2)),
                            shape_y :=
                              trunc (of_int (shape_y (dict_cells w (snd ia))) +
                                     of_int (snd (target (fst ia)) - shape_y (dict_cells w (snd ia))) *
                                       (1 - (1 - real k / 24)\<^sup>2))\<rparr>)
                      (enumerate 0 ?xs)" if id: "rnd env = (\<lambda>r. r)" and k: "k < 25" for k
    unfolding explicit[OF k] unfolding lerp_def progress_def id ..
  show ?thesis
  proof (intro conjI)
    show "\<exists>frames w'.
            video_frames env cfg first final td w = Inr (frames, w') \<and>
            (\<forall>k < animation_frames.
               drawn_shapes (img_ops (frames ! (hold_frames + k))) =
                 map (\<lambda>ia. moved_shape env (ease env k) (dict_cells w (snd ia))
                             (layout_targets width height ?n ! fst ia))
                   (enumerate 0 ?xs)) \<and>
            drawn_shapes (img_ops (frames ! hold_frames)) = map (dict_cells w) ?xs \<and>
            map (\<lambda>s. (shape_x s, shape_y s))
              (drawn_shapes (img_ops (frames ! (hold_frames + (animation_frames - 1))))) =
              layout_targets width height ?n \<and>
            (\<forall>k < 25.
               drawn_shapes (img_ops (frames ! (5 + k))) =
                 map (\<lambda>ia. (dict_cells w (snd ia))
                        \<lparr>shape_x := lerp k (shape_x (dict_cells w (snd ia))) (fst (target (fst ia))),
                         shape_y := lerp k (shape_y (dict_cells w (snd ia))) (snd (target (fst ia)))\<rparr>)
                   (enumerate 0 ?xs)) \<and>
            (rnd env = (\<lambda>r. r) \<longrightarrow>
               (\<forall>k < 25.
                  drawn_shapes (img_ops (frames ! (5 + k))) =
                    map (\<lambda>ia. (dict_cells w (snd ia))
                           \<lparr>shape_x :=
                              trunc (of_int (shape_x (dict_cells w (snd ia))) +
                                     of_int (fst (target (fst ia)) - shape_x (dict_cells w (snd ia))) *
                                       (1 - (1 - real k / 24)\<^sup>2)),
                            shape_y :=
                              trunc (of_int (shape_y (dict_cells w (snd ia))) +
                                     of_int (snd (target (fst ia)) - shape_y (dict_cells w (snd ia))) *
                                       (1 - (1 - real k / 24)\<^sup>2))\<rparr>)
                      (enumerate 0 ?xs)))"
      using v d s f explicit exact by blast
  qed (use mono e0 e1 ex pr tg in blast)+
qed
theorem eased_interpolation_witness:
  "faithful_rounding (rnd test_platform) \<and>
   list_all (\<lambda>a. a < dict_next demo_world) (td_shapes demo_scene) \<and>
   layout_targets 512 512 (length (td_shapes demo_scene)) = [(148, 256), (256, 256), (364, 256)] \<and>
   ease test_platform 0 = 0 \<and> ease test_platform 24 = 1 \<and>
   (\<exists>frames w'.
      video_frames test_platform default_config
        (render_overlapping default_config demo_scene demo_world)
        (render_overlapping default_config demo_scene demo_world) demo_scene demo_world =
        Inr (frames, w') \<and>
      map (\<lambda>s. (shape_x s, shape_y s)) (drawn_shapes (img_ops (frames ! 5))) =
        [(230, 280), (270, 240), (250, 260)] \<and>
      map (\<lambda>s. (shape_x s, shape_y s)) (drawn_shapes (img_ops (frames ! 17))) =
        [(168, 262), (259, 252), (335, 257)] \<and>
      map (\<lambda>s. (shape_x s, shape_y s)) (drawn_shapes (img_ops (frames ! 29))) =
        [(148, 256), (256, 256), (364, 256)])"
proof -
  have h1: "faithful_rounding (rnd test_platform)"
    by (simp add: faithful_rounding_def test_platform_def mono_def)
  have h2: "\<forall>a \<in> set (td_shapes demo_scene). a < dict_next demo_world"
    by (simp add: demo_scene_def demo_world_def)
  have h3: "image_size default_config = (512, 512)" by (simp add: default_config_def)
  have h4: "\<forall>a \<in> set (td_shapes demo_scene).
               \<bar>shape_x (dict_cells demo_world a)\<bar> \<le> 2 ^ 52 \<and>
               \<bar>shape_y (dict_cells demo_world a)\<bar> \<le> 2 ^ 52"
    by (simp add: demo_scene_def demo_world_def demo_shapes_def)
  have n3: "length (td_shapes demo_scene) = 3" by (simp add: demo_scene_def)
  have lt: "layout_targets 512 512 (length (td_shapes demo_scene)) =
              [(148, 256), (256, 256), (364, 256)]"
    unfolding n3 by (simp add: layout_targets_def margin_def upt_rec)
  have h5: "\<forall>t \<in> set (layout_targets 512 512 (length (td_shapes demo_scene))).
               \<bar>fst t\<bar> \<le> 2 ^ 52 \<and> \<bar>snd t\<bar> \<le> 2 ^ 52"
    unfolding lt by simp
  have srt: "map (dict_cells demo_world) (sorted_by_layer_reverse demo_world (td_shapes demo_scene)) =
               rev demo_shapes"
    by (simp add: sorted_by_layer_reverse_def demo_scene_def demo_world_def demo_shapes_def)
  have A: "hold_frames + (animation_frames - 1) = 29" "animation_frames - 1 = 24" "hold_frames = 5"
    by (simp_all add: hold_frames_def animation_frames_def)
  have id: "rnd test_platform = (\<lambda>r. r)" by (simp add: test_platform_def)
  from eased_interpolation[OF h1 h2 h3 h4 h5,
      where first = "render_overlapping default_config demo_scene demo_world"
        and final = "render_overlapping default_config demo_scene demo_world"] id
  obtain frames w' where
    e0: "ease test_platform 0 = 0" and e1: "ease test_platform (animation_frames - 1) = 1" and
    v: "video_frames test_platform default_config
          (render_overlapping default_config demo_scene demo_world)
          (render_overlapping default_config demo_scene demo_world) demo_scene demo_world =
          Inr (frames, w')" and
    s: "drawn_shapes (img_ops (frames ! hold_frames)) =
          map (dict_cells demo_world) (sorted_by_layer_reverse demo_world (td_shapes demo_scene))" and
    f: "map (\<lambda>s. (shape_x s, shape_y s))
          (drawn_shapes (img_ops (frames ! (hold_frames + (animation_frames - 1))))) =
          layout_targets 512 512 (length (td_shapes demo_scene))" and
    m: "\<forall>k < 25.
          drawn_shapes (img_ops (frames ! (5 + k))) =
            map (\<lambda>ia. (dict_cells demo_world (snd ia))
                   \<lparr>shape_x :=
                      (let r = of_int (shape_x (dict_cells demo_world (snd ia))) +
                               of_int (fst (40 + ((512 - 2 * 40) div
                                          (int (length (td_shapes demo_scene)) + 1)) *
                                          (int (fst ia) + 1), 512 div 2 :: int) -
                                       shape_x (dict_cells demo_world (snd ia))) *
                                 (1 - (1 - real k / 24)\<^sup>2)
                       in if 0 \<le> r then \<lfloor>r\<rfloor> else \<lceil>r\<rceil>),
                    shape_y :=
                      (let r = of_int (shape_y (dict_cells demo_world (snd ia))) +
                               of_int (snd (40 + ((512 - 2 * 40) div
                                          (int (length (td_shapes demo_scene)) + 1)) *
                                          (int (fst ia) + 1), 512 div 2 :: int) -
                                       shape_y (dict_cells demo_world (snd ia))) *
                                 (1 - (1 - real k / 24)\<^sup>2)
                       in if 0 \<le> r then \<lfloor>r\<rfloor> else \<lceil>r\<rceil>)\<rparr>)
              (enumerate 0 (sorted_by_layer_reverse demo_world (td_shapes demo_scene)))"
    by (auto simp: Let_def)
  have srt': "sorted_by_layer_reverse demo_world (td_shapes demo_scene) = [2, 1, 0]"
    by (simp add: sorted_by_layer_reverse_def demo_scene_def demo_world_def demo_shapes_def)
  have "(12::nat) < 25" by simp
  with m have "drawn_shapes (img_ops (frames ! (5 + 12))) =
            map (\<lambda>ia. (dict_cells demo_world (snd ia))
                   \<lparr>shape_x :=
                      (let r = of_int (shape_x (dict_cells demo_world (snd ia))) +
                               of_int (fst (40 + ((512 - 2 * 40) div
                                          (int (length (td_shapes demo_scene)) + 1)) *
                                          (int (fst ia) + 1), 512 div 2 :: int) -
                                       shape_x (dict_cells demo_world (snd ia))) *
                                 (1 - (1 - real 12 / 24)\<^sup>2)
                       in if 0 \<le> r then \<lfloor>r\<rfloor> else \<lceil>r\<rceil>),
                    shape_y :=
                      (let r = of_int (shape_y (dict_cells demo_world (snd ia))) +
                               of_int (snd (40 + ((512 - 2 * 40) div
                                          (int (length (td_shapes demo_scene)) + 1)) *
                                          (int (fst ia) + 1), 512 div 2 :: int) -
                                       shape_y (dict_cells demo_world (snd ia))) *
                                 (1 - (1 - real 12 / 24)\<^sup>2)
                       in if 0 \<le> r then \<lfloor>r\<rfloor> else \<lceil>r\<rceil>)\<rparr>)
              (enumerate 0 (sorted_by_layer_reverse demo_world (td_shapes demo_scene)))"
    by blast
  then have m': "map (\<lambda>s. (shape_x s, shape_y s)) (drawn_shapes (img_ops (frames ! 17))) =
        [(168, 262), (259, 252), (335, 257)]"
    unfolding srt' n3
    by (simp add: enumerate_eq_zip upt_rec demo_world_def demo_shapes_def power2_eq_square)
  have s': "map (\<lambda>s. (shape_x s, shape_y s)) (drawn_shapes (img_ops (frames ! 5))) =
        [(230, 280), (270, 240), (250, 260)]"
    using s unfolding srt A by (simp add: demo_shapes_def)
  have f': "map (\<lambda>s. (shape_x s, shape_y s)) (drawn_shapes (img_ops (frames ! 29))) =
        [(148, 256), (256, 256), (364, 256)]"
    using f unfolding A lt by simp
  have e1': "ease test_platform 24 = 1" using e1 unfolding A .
  show ?thesis using h1 h2 lt e0 e1' v s' m' f' by (auto simp: list_all_iff)
qed











lemma generate_task_pair_with_video:
  assumes g: "generate_task_data cfg w = Inr (td, w1)"
    and r: "render_separated env cfg td w1 = Inr (final, w2)"
    and c: "gen_config self = cfg"
    and vid: "(if generate_videos cfg \<and> gen_video_generator self \<noteq> None
               then generate_video env self (render_overlapping cfg td w1) final task_id td w2
               else Inr (None, w2)) = Inr (video, w3)"
  shows "\<exists>prompt w4.
           generate_task_pair env self task_id w =
             Inr (\<lparr>tp_task_id = task_id, tp_domain = cfg_domain cfg, tp_prompt = prompt,
                   tp_first_image = render_overlapping cfg td w1, tp_final_image = final,
                   tp_ground_truth_video = video\<rparr>, w4)"
proof -
  from get_prompt_total[of "td_type td" w3] obtain prompt w4 where
    p: "get_prompt (td_type td) w3 = Inr (prompt, w4)" by blast
  have "generate_task_pair env self task_id w =
             Inr (\<lparr>tp_task_id = task_id, tp_domain = cfg_domain cfg, tp_prompt = prompt,
                   tp_first_image = render_overlapping cfg td w1, tp_final_image = final,
                   tp_ground_truth_video = video\<rparr>, w4)"
    unfolding generate_task_pair_def c
    using g r vid p
    by (simp add: ebind_def Let_def render_initial_state_def render_final_state_def)
  then show ?thesis by blast
qed

lemma generate_task_pair_mkdir_failure:
  assumes "min_shapes cfg \<le> max_shapes cfg"
    and "min_shape_size cfg \<le> max_shape_size cfg"
    and "list_cells w (shape_colors cfg) \<noteq> []"
    and "generate_videos cfg" and "video_available env"
    and "\<not> mkdir_ok env (temp_dir_of env cfg)"
  shows "generate_task_pair env (init_generator env cfg) task_id w = Inl OSError"
proof -
  let ?self = "init_generator env cfg"
  have c: "gen_config ?self = cfg" by (simp add: init_generator_def)
  from generate_task_data_total[OF assms(1-3)] obtain td w1 where
    g: "generate_task_data cfg w = Inr (td, w1)" by blast
  have al: "\<forall>a \<in> set (td_shapes td). a < dict_next w1"
    using generate_task_data_Inr[OF g] by auto
  obtain width height where wh: "image_size cfg = (width, height)" by (cases "image_size cfg")
  from render_separated_view[OF al wh, of env] obtain final w2 where
    r: "render_separated env cfg td w1 = Inr (final, w2)" by blast
  have "generate_video env ?self (render_overlapping cfg td w1) final task_id td w2 = Inl OSError"
    using assms(6) by (simp add: generate_video_def Let_def c)
  then show ?thesis
    unfolding generate_task_pair_def c using g r assms(4,5)
    by (simp add: ebind_def Let_def render_initial_state_def render_final_state_def
          init_generator_def)
qed

text \<open>Claim C9. For a configuration with \<open>min_shapes \<le> max_shapes\<close>, \<open>min_shape_size \<le>
  max_shape_size\<close> and a non-empty palette, and a generator constructed from it, the scene is
  generated, both renders succeed and the 40 frames are determined. If video generation is
  disabled, or the encoder is unavailable, or the encoder is reached (the temporary
  directory could be created) and its one call, on these 40 frames and the output path,
  returns a falsy result, then \<^verbatim>\<open>generate_task_pair\<close> returns a task pair whose first image is
  the overlapping render and whose final image is the separated render of the generated
  scene, with no video. Whenever the encoder is reached, the task pair is returned and its
  video is the string of the result if that is truthy and absent otherwise.\<close>

theorem video_failure_is_graceful:
  fixes env :: platform and cfg :: task_config and task_id :: string
    and encoder_call :: "image list \<Rightarrow> pyval"
  defines "encoder_call \<equiv> \<lambda>frames.
             create_video_from_frames env \<lparr>vg_fps = video_fps cfg, vg_output_format = ''mp4''\<rparr>
               frames (video_path_of env cfg task_id)"
  assumes "min_shapes cfg \<le> max_shapes cfg"
    and "min_shape_size cfg \<le> max_shape_size cfg"
    and "list_cells w (shape_colors cfg) \<noteq> []"
  shows "\<exists>td w1 final w2 frames w3.
           generate_task_data cfg w = Inr (td, w1) \<and>
           render_separated env cfg td w1 = Inr (final, w2) \<and>
           video_frames env cfg (render_overlapping cfg td w1) final td w2 = Inr (frames, w3) \<and>
           length frames = 40 \<and>
           (\<not> generate_videos cfg \<or> \<not> video_available env \<or>
            mkdir_ok env (temp_dir_of env cfg) \<and> \<not> truthy (encoder_call frames) \<longrightarrow>
              (\<exists>tp w'.
                 generate_task_pair env (init_generator env cfg) task_id w = Inr (tp, w') \<and>
                 tp_ground_truth_video tp = None \<and>
                 tp_task_id tp = task_id \<and>
                 tp_first_image tp = render_overlapping cfg td w1 \<and>
                 tp_final_image tp = final)) \<and>
           (generate_videos cfg \<and> video_available env \<and> mkdir_ok env (temp_dir_of env cfg) \<longrightarrow>
              (\<exists>tp w'.
                 generate_task_pair env (init_generator env cfg) task_id w = Inr (tp, w') \<and>
                 tp_ground_truth_video tp =
                   (if truthy (encoder_call frames) then Some (py_str (encoder_call frames))
                    else None) \<and>
                 tp_task_id tp = task_id \<and>
                 tp_first_image tp = render_overlapping cfg td w1 \<and>
                 tp_final_image tp = final))"
proof -
  let ?self = "init_generator env cfg"
  have c: "gen_config ?self = cfg" by (simp add: init_generator_def)
  from generate_task_data_total[OF assms(2-4)] obtain td w1 where
    g: "generate_task_data cfg w = Inr (td, w1)" by blast
  have al: "\<forall>a \<in> set (td_shapes td). a < dict_next w1"
    using generate_task_data_Inr[OF g] by auto
  obtain width height where wh: "image_size cfg = (width, height)" by (cases "image_size cfg")
  from render_separated_view[OF al wh, of env] obtain final w2 where
    r: "render_separated env cfg td w1 = Inr (final, w2)" and
    n2: "dict_next w1 \<le> dict_next w2"
    by blast
  let ?first = "render_overlapping cfg td w1"
  have al2: "\<forall>a \<in> set (td_shapes td). a < dict_next w2" using al n2 by auto
  from video_frames_view[OF al2 wh, of env ?first final] obtain frames w3 where
    v: "video_frames env cfg ?first final td w2 = Inr (frames, w3)" and
    len: "length frames = 40" by blast
  let ?branch = "if generate_videos cfg \<and> gen_video_generator ?self \<noteq> None
                 then generate_video env ?self ?first final task_id td w2
                 else Inr (None, w2)"
  have off: "?branch = Inr (None, w2)" if "\<not> generate_videos cfg \<or> \<not> video_available env"
    using that by (auto simp: init_generator_def)
  have on: "?branch =
              Inr (if truthy (encoder_call frames) then Some (py_str (encoder_call frames))
                   else None, w3)"
    if "generate_videos cfg" "video_available env" "mkdir_ok env (temp_dir_of env cfg)"
    using that v unfolding encoder_call_def
    by (simp add: generate_video_def Let_def ebind_def init_generator_def)
  have pair: "\<exists>tp w'.
                 generate_task_pair env ?self task_id w = Inr (tp, w') \<and>
                 tp_ground_truth_video tp = video \<and>
                 tp_task_id tp = task_id \<and>
                 tp_first_image tp = ?first \<and>
                 tp_final_image tp = final"
    if "?branch = Inr (video, w')" for video w'
  proof -
    from generate_task_pair_with_video[OF g r c that] obtain prompt w4 where
      "generate_task_pair env ?self task_id w =
             Inr (\<lparr>tp_task_id = task_id, tp_domain = cfg_domain cfg, tp_prompt = prompt,
                   tp_first_image = ?first, tp_final_image = final,
                   tp_ground_truth_video = video\<rparr>, w4)" by blast
    then show ?thesis by simp
  qed
  have A: "\<exists>tp w'.
                 generate_task_pair env ?self task_id w = Inr (tp, w') \<and>
                 tp_ground_truth_video tp = None \<and>
                 tp_task_id tp = task_id \<and>
                 tp_first_image tp = ?first \<and>
                 tp_final_image tp = final"
    if h: "\<not> generate_videos cfg \<or> \<not> video_available env \<or>
           mkdir_ok env (temp_dir_of env cfg) \<and> \<not> truthy (encoder_call frames)"
  proof (cases "generate_videos cfg \<and> video_available env")
    case False
    then have "?branch = Inr (None, w2)" by (intro off) blast
    from pair[OF this] show ?thesis .
  next
    case True
    with h have m: "mkdir_ok env (temp_dir_of env cfg)" and f: "\<not> truthy (encoder_call frames)"
      by blast+
    from on[OF _ _ m] True f have "?branch = Inr (None, w3)" by simp
    from pair[OF this] show ?thesis .
  qed
  have B: "\<exists>tp w'.
                 generate_task_pair env ?self task_id w = Inr (tp, w') \<and>
                 tp_ground_truth_video tp =
                   (if truthy (encoder_call frames) then Some (py_str (encoder_call frames))
                    else None) \<and>
                 tp_task_id tp = task_id \<and>
                 tp_first_image tp = ?first \<and>
                 tp_final_image tp = final"
    if h: "generate_videos cfg \<and> video_available env \<and> mkdir_ok env (temp_dir_of env cfg)"
  proof -
    from h on have "?branch =
              Inr (if truthy (encoder_call frames) then Some (py_str (encoder_call frames))
                   else None, w3)" by blast
    from pair[OF this] show ?thesis .
  qed
  from g r v len A B show ?thesis by blast
qed


theorem video_failure_is_graceful_witness:
  "min_shapes default_config \<le> max_shapes default_config \<and>
   min_shape_size default_config \<le> max_shape_size default_config \<and>
   list_cells (initial_world zero_entropy) (shape_colors default_config) \<noteq> [] \<and>
   generate_videos default_config \<and> video_available flaky_platform \<and>
   mkdir_ok flaky_platform (temp_dir_of flaky_platform default_config) \<and>
   truthy (create_video_from_frames flaky_platform
             \<lparr>vg_fps = 10, vg_output_format = ''mp4''\<rparr> [] ''/tmp/x.mp4'') \<and>
   (\<exists>tp w'.
      generate_task_pair flaky_platform (init_generator flaky_platform default_config)
        ''task_0'' (initial_world zero_entropy) = Inr (tp, w') \<and>
      tp_ground_truth_video tp = None \<and> tp_task_id tp = ''task_0'')"
proof -
  have h1: "min_shapes default_config \<le> max_shapes default_config"
    and h2: "min_shape_size default_config \<le> max_shape_size default_config"
    and h3: "list_cells (initial_world zero_entropy) (shape_colors default_config) \<noteq> []"
    by (simp_all add: default_config_def initial_world_def default_palette_def)
  have on: "generate_videos default_config" "video_available flaky_platform"
    "mkdir_ok flaky_platform (temp_dir_of flaky_platform default_config)"
    by (simp_all add: default_config_def flaky_platform_def test_platform_def)
  have t: "truthy (create_video_from_frames flaky_platform
             \<lparr>vg_fps = 10, vg_output_format = ''mp4''\<rparr> [] ''/tmp/x.mp4'')"
    by (simp add: flaky_platform_def)
  from video_failure_is_graceful[OF h1 h2 h3, where env = flaky_platform and task_id = "''task_0''"]
  obtain td w1 final w2 frames w3 where
    len: "length frames = 40" and
    A: "\<not> generate_videos default_config \<or> \<not> video_available flaky_platform \<or>
        mkdir_ok flaky_platform (temp_dir_of flaky_platform default_config) \<and>
        \<not> truthy (create_video_from_frames flaky_platform
                    \<lparr>vg_fps = video_fps default_config, vg_output_format = ''mp4''\<rparr>
                    frames (video_path_of flaky_platform default_config ''task_0'')) \<longrightarrow>
          (\<exists>tp w'.
             generate_task_pair flaky_platform (init_generator flaky_platform default_config)
               ''task_0'' (initial_world zero_entropy) = Inr (tp, w') \<and>
             tp_ground_truth_video tp = None \<and>
             tp_task_id tp = ''task_0'' \<and>
             tp_first_image tp = render_overlapping default_config td w1 \<and>
             tp_final_image tp = final)"
    by blast
  have "\<not> truthy (create_video_from_frames flaky_platform
                    \<lparr>vg_fps = video_fps default_config, vg_output_format = ''mp4''\<rparr>
                    frames (video_path_of flaky_platform default_config ''task_0''))"
    using len by (simp add: flaky_platform_def)
  with A on have "\<exists>tp w'.
      generate_task_pair flaky_platform (init_generator flaky_platform default_config)
        ''task_0'' (initial_world zero_entropy) = Inr (tp, w') \<and>
      tp_ground_truth_video tp = None \<and> tp_task_id tp = ''task_0''"
    by blast
  with h1 h2 h3 on t show ?thesis by simp
qed

end
